theory Spec2Isabelle
  imports Complex_Main "HOL-Library.Word"
begin

unbundle bit_operations_syntax

section \<open>Conventions of the embedding\<close>

text \<open>
  The development embeds the mass-spring driver of the cloth and strand simulation
  (\<^verbatim>\<open>mass_spring.cpp\<close>, kept as \<^verbatim>\<open>src/unnamed/part_000\<close>, from line 947 on).

  \<^item> A C \<^verbatim>\<open>int\<close> that takes part in arithmetic or bit tests is a \<open>32 word\<close>, read with
    \<open>sint\<close>; array indices and array lengths are \<open>nat\<close>.
  \<^item> A C \<^verbatim>\<open>float\<close> is a \<open>real\<close>. The arithmetic on positions, velocities, impulses
    and errors is exact: rounding, infinities and NaN are outside the model there. The
    loop variables \<^verbatim>\<open>step\<close>, \<^verbatim>\<open>dt\<close> and \<^verbatim>\<open>dstep\<close> of the two substep loops decide how
    often a loop body runs, so every operation on them is rounded to single precision
    with \<open>to_float\<close>.
  \<^item> A C array together with its element count is a list; an index outside the list is
    the error value \<open>OutOfBounds\<close>.
  \<^item> Constants of headers that are not part of the sources are collected in the record
    \<open>header_consts\<close>; every function that tests one of them takes the record as its first
    argument, so every theorem holds for whatever values the headers give them.
\<close>

datatype error = OutOfBounds

type_synonym float3 = "real \<times> real \<times> real"

record header_consts =
  ALMOST_ZERO :: real
  COLLISION_IN_FUTURE :: "32 word"
  CLOTH_VERT_FLAG_PINNED :: "32 word"
  CLOTH_SPRING_TYPE_BENDING_ANG :: "32 word"
  CLOTH_SIMSETTINGS_FLAG_GOAL :: "32 word"
  BPH_SOLVER_SUCCESS :: "32 word"

section \<open>Vector helpers\<close>

text \<open>
  Modelled from the spec: the vector helpers of \<^verbatim>\<open>BLI_math\<close> and the macro
  \<^verbatim>\<open>CLAMP\<close> of \<^verbatim>\<open>BLI_utildefines.h\<close> are not in the sources. The spec names
  them by what they compute (difference, dot product, scaling, linear interpolation,
  clamping); they are written componentwise here. \<open>CLAMP\<close> tests the lower bound first,
  then the upper one.
\<close>

definition zero_v3 :: float3 where
  "zero_v3 = (0, 0, 0)"

fun sub_v3_v3v3 :: "float3 \<Rightarrow> float3 \<Rightarrow> float3" where
  "sub_v3_v3v3 (a0, a1, a2) (b0, b1, b2) = (a0 - b0, a1 - b1, a2 - b2)"

fun dot_v3v3 :: "float3 \<Rightarrow> float3 \<Rightarrow> real" where
  "dot_v3v3 (a0, a1, a2) (b0, b1, b2) = a0 * b0 + a1 * b1 + a2 * b2"

fun mul_v3_v3fl :: "float3 \<Rightarrow> real \<Rightarrow> float3" where
  "mul_v3_v3fl (a0, a1, a2) f = (a0 * f, a1 * f, a2 * f)"

fun madd_v3_v3v3fl :: "float3 \<Rightarrow> float3 \<Rightarrow> real \<Rightarrow> float3" where
  "madd_v3_v3v3fl (a0, a1, a2) (b0, b1, b2) f = (a0 + b0 * f, a1 + b1 * f, a2 + b2 * f)"


definition max_ff :: "real \<Rightarrow> real \<Rightarrow> real" where
  "max_ff a b = (if a > b then a else b)"

definition min_ff :: "real \<Rightarrow> real \<Rightarrow> real" where
  "min_ff a b = (if a < b then a else b)"

definition max_ii :: "int \<Rightarrow> int \<Rightarrow> int" where
  "max_ii a b = (if b < a then a else b)"

definition min_ii :: "int \<Rightarrow> int \<Rightarrow> int" where
  "min_ii a b = (if a < b then a else b)"

definition CLAMP :: "real \<Rightarrow> real \<Rightarrow> real \<Rightarrow> real" where
  "CLAMP a b c = (if a < b then b else if a > c then c else a)"

section \<open>Cloth data\<close>

record ClothVertex =
  vert_flags :: "32 word"
  vert_v :: float3
  vert_x :: float3
  vert_xold :: float3
  vert_xconst :: float3
  vert_txold :: float3
  vert_mass :: real
  vert_impulse_count :: int

record ClothSpring =
  spring_type :: "32 word"

section \<open>The implicit solver's interface\<close>

text \<open>
  Modelled from the spec: the solver behind the \<^verbatim>\<open>BPH_mass_spring_*\<close> functions
  (\<^verbatim>\<open>implicit.h\<close>) is not in the sources. The spec describes it as storage for N
  vertices and M off-diagonal blocks with get/set of the per-vertex mass, position and
  velocity and a per-vertex set of constraints that is cleared and refilled before each
  solve. The model keeps the two sizes, the three per-vertex arrays, and the
  constraints as the sequence of calls made since the last clear.
\<close>

datatype constraint =
  NDOF0 nat float3
| NDOF2 nat float3 float3

record Implicit_Data =
  id_numverts :: nat
  id_numsprings :: "32 word"
  id_M :: "real list"
  id_X :: "float3 list"
  id_V :: "float3 list"
  id_constraints :: "constraint list"

definition BPH_mass_spring_solver_create :: "nat \<Rightarrow> 32 word \<Rightarrow> Implicit_Data" where
  "BPH_mass_spring_solver_create numverts numsprings =
     \<lparr>id_numverts = numverts, id_numsprings = numsprings,
      id_M = replicate numverts 0,
      id_X = replicate numverts zero_v3,
      id_V = replicate numverts zero_v3,
      id_constraints = []\<rparr>"

definition BPH_mass_spring_solver_numvert :: "Implicit_Data \<Rightarrow> nat" where
  "BPH_mass_spring_solver_numvert data = id_numverts data"

definition BPH_mass_spring_clear_constraints :: "Implicit_Data \<Rightarrow> Implicit_Data" where
  "BPH_mass_spring_clear_constraints data = data\<lparr>id_constraints := []\<rparr>"

definition BPH_mass_spring_add_constraint_ndof0 ::
  "Implicit_Data \<Rightarrow> nat \<Rightarrow> float3 \<Rightarrow> Implicit_Data" where
  "BPH_mass_spring_add_constraint_ndof0 data index dV =
     data\<lparr>id_constraints := id_constraints data @ [NDOF0 index dV]\<rparr>"

definition BPH_mass_spring_add_constraint_ndof2 ::
  "Implicit_Data \<Rightarrow> nat \<Rightarrow> float3 \<Rightarrow> float3 \<Rightarrow> Implicit_Data" where
  "BPH_mass_spring_add_constraint_ndof2 data index c1 dV =
     data\<lparr>id_constraints := id_constraints data @ [NDOF2 index c1 dV]\<rparr>"



section \<open>Solver set-up for a cloth body\<close>

record Cloth =
  cloth_verts :: "ClothVertex list"
  cloth_springs :: "ClothSpring list"
  cloth_implicit :: "Implicit_Data option"

text \<open>The field \<^verbatim>\<open>numverts\<close> is the length of the array \<^verbatim>\<open>verts\<close>.\<close>

definition cloth_numverts :: "Cloth \<Rightarrow> nat" where
  "cloth_numverts cloth = length (cloth_verts cloth)"

text \<open>
  \<^verbatim>\<open>cloth_count_nondiag_blocks\<close>: the walk over the linked list of springs, with the
  counter \<^verbatim>\<open>nondiag\<close> as accumulator.
\<close>

fun count_nondiag_loop :: "header_consts \<Rightarrow> ClothSpring list \<Rightarrow> 32 word \<Rightarrow> 32 word" where
  "count_nondiag_loop H [] nondiag = nondiag"
| "count_nondiag_loop H (spring # link) nondiag =
     count_nondiag_loop H link
       (if spring_type spring = CLOTH_SPRING_TYPE_BENDING_ANG H then nondiag + 3
        else nondiag + 1)"

definition cloth_count_nondiag_blocks :: "header_consts \<Rightarrow> Cloth \<Rightarrow> 32 word" where
  "cloth_count_nondiag_blocks H cloth = count_nondiag_loop H (cloth_springs cloth) 0"

text \<open>
  \<^verbatim>\<open>cloth_solver_init_data\<close> frees and creates solvers through the interface; the calls
  it makes are returned as a trace beside the updated cloth, whose field
  \<open>cloth_implicit\<close> is the pointer the C function returns.
\<close>

datatype solver_call = Solver_Free | Solver_Create nat "32 word"

definition cloth_solver_init_data :: "header_consts \<Rightarrow> Cloth \<Rightarrow> solver_call list \<times> Cloth" where
  "cloth_solver_init_data H cloth =
     (let totvert = cloth_numverts cloth;
          (calls1, cloth1) =
            (case cloth_implicit cloth of
               Some data \<Rightarrow>
                 if totvert \<noteq> BPH_mass_spring_solver_numvert data
                 then ([Solver_Free], cloth\<lparr>cloth_implicit := None\<rparr>)
                 else ([], cloth)
             | None \<Rightarrow> ([], cloth))
      in case cloth_implicit cloth1 of
           None \<Rightarrow>
             (let nondiag = cloth_count_nondiag_blocks H cloth1
              in (calls1 @ [Solver_Create totvert nondiag],
                  cloth1\<lparr>cloth_implicit := Some (BPH_mass_spring_solver_create totvert nondiag)\<rparr>))
         | Some data \<Rightarrow> (calls1, cloth1))"

text \<open>
  \<^verbatim>\<open>BPH_cloth_solver_init\<close> and \<^verbatim>\<open>BPH_cloth_solver_set_positions\<close> obtain the solver
  from \<open>cloth_solver_init_data\<close> and then fill it vertex by vertex. The C loops advance
  the index \<^verbatim>\<open>i\<close> and the pointer \<^verbatim>\<open>vert\<close> together. (\<^verbatim>\<open>BPH_cloth_solver_init\<close>
  always returns 1; the model returns the calls and the cloth.)
\<close>

type_synonym float3x3 = "float3 \<times> float3 \<times> float3"

definition I3 :: float3x3 where
  "I3 = ((1, 0, 0), (0, 1, 0), (0, 0, 1))"

text \<open>
  Modelled from the spec: the setters of the solver interface are not in the sources;
  each stores its argument in the slot of the vertex. The rest transform is not read
  by any function embedded here, so setting it leaves the modelled fields as they are.
\<close>

definition BPH_mass_spring_set_vertex_mass ::
  "Implicit_Data \<Rightarrow> nat \<Rightarrow> real \<Rightarrow> Implicit_Data" where
  "BPH_mass_spring_set_vertex_mass data index mass = data\<lparr>id_M := (id_M data)[index := mass]\<rparr>"

definition BPH_mass_spring_set_motion_state ::
  "Implicit_Data \<Rightarrow> nat \<Rightarrow> float3 \<Rightarrow> float3 \<Rightarrow> Implicit_Data" where
  "BPH_mass_spring_set_motion_state data index x v =
     data\<lparr>id_X := (id_X data)[index := x], id_V := (id_V data)[index := v]\<rparr>"

definition BPH_mass_spring_set_rest_transform ::
  "Implicit_Data \<Rightarrow> nat \<Rightarrow> float3x3 \<Rightarrow> Implicit_Data" where
  "BPH_mass_spring_set_rest_transform data index tfm = data"

fun solver_init_loop :: "ClothVertex list \<Rightarrow> nat \<Rightarrow> Implicit_Data \<Rightarrow> Implicit_Data" where
  "solver_init_loop [] i data = data"
| "solver_init_loop (vert # verts) i data =
     solver_init_loop verts (Suc i)
       (BPH_mass_spring_set_motion_state
          (BPH_mass_spring_set_vertex_mass data i (vert_mass vert)) i (vert_x vert) zero_v3)"

definition BPH_cloth_solver_init :: "header_consts \<Rightarrow> Cloth \<Rightarrow> solver_call list \<times> Cloth" where
  "BPH_cloth_solver_init H cloth =
     (let (calls, cloth1) = cloth_solver_init_data H cloth
      in (calls,
          cloth1\<lparr>cloth_implicit :=
                   map_option (solver_init_loop (cloth_verts cloth1) 0) (cloth_implicit cloth1)\<rparr>))"

text \<open>
  \<open>hairdata\<close> is \<^verbatim>\<open>clmd->hairdata\<close>: absent, or one root rotation per vertex.
\<close>

fun set_positions_loop ::
  "float3x3 list option \<Rightarrow> ClothVertex list \<Rightarrow> nat \<Rightarrow> Implicit_Data \<Rightarrow> error + Implicit_Data" where
  "set_positions_loop hairdata [] i data = Inr data"
| "set_positions_loop hairdata (vert # verts) i data =
     (case (case hairdata of
              Some roots \<Rightarrow>
                if i < length roots
                then Inr (BPH_mass_spring_set_rest_transform data i (roots ! i))
                else Inl OutOfBounds
            | None \<Rightarrow> Inr (BPH_mass_spring_set_rest_transform data i I3)) of
        Inl e \<Rightarrow> Inl e
      | Inr data1 \<Rightarrow>
          set_positions_loop hairdata verts (Suc i)
            (BPH_mass_spring_set_motion_state data1 i (vert_x vert) (vert_v vert)))"

definition BPH_cloth_solver_set_positions ::
  "header_consts \<Rightarrow> float3x3 list option \<Rightarrow> Cloth \<Rightarrow> solver_call list \<times> (error + Cloth)" where
  "BPH_cloth_solver_set_positions H hairdata cloth =
     (let (calls, cloth1) = cloth_solver_init_data H cloth
      in (calls,
          case cloth_implicit cloth1 of
            None \<Rightarrow> Inr cloth1
          | Some data \<Rightarrow>
              (case set_positions_loop hairdata (cloth_verts cloth1) 0 data of
                 Inl e \<Rightarrow> Inl e
               | Inr data' \<Rightarrow> Inr (cloth1\<lparr>cloth_implicit := Some data'\<rparr>))))"

text \<open>
  The vertex-pair count a spring touches, in the words of the specification: three for
  an angular-bending spring, one for every other spring.
\<close>

definition spring_vertex_pairs :: "header_consts \<Rightarrow> ClothSpring \<Rightarrow> nat" where
  "spring_vertex_pairs H spring =
     (if spring_type spring = CLOTH_SPRING_TYPE_BENDING_ANG H then 3 else 1)"

text \<open>The test of \<open>cloth_solver_init_data\<close>: there is no solver, or its size is stale.\<close>

definition needs_new_solver :: "Cloth \<Rightarrow> bool" where
  "needs_new_solver cloth =
     (case cloth_implicit cloth of
        None \<Rightarrow> True
      | Some data \<Rightarrow> cloth_numverts cloth \<noteq> BPH_mass_spring_solver_numvert data)"

section \<open>Collision response and constraint set-up\<close>

record CollPair =
  cp_ap1 :: nat
  cp_face1 :: nat
  cp_distance :: real
  cp_normal :: float3
  cp_flag :: "32 word"

text \<open>
  Modelled from the spec: \<^verbatim>\<open>BLI_bvhtree_getepsilon\<close> and
  \<^verbatim>\<open>collision_get_collider_velocity\<close> are not in the sources. The spec calls their
  results the collision margin and the velocity of the collider at its old and its
  predicted new state; both are data of the collider here.
\<close>

record CollisionModifierData =
  collmd_bvhtree_epsilon :: real
  collmd_collider_velocity :: "CollPair \<Rightarrow> float3 \<times> float3"

record ColliderContacts =
  ct_collmd :: CollisionModifierData
  ct_collisions :: "CollPair list"

definition response_bounce :: "real \<Rightarrow> real \<Rightarrow> real" where
  "response_bounce v_nor_old restitution = - v_nor_old * restitution"

definition response_repulse :: "real \<Rightarrow> real \<Rightarrow> real \<Rightarrow> real" where
  "response_repulse margin_distance dt bounce = CLAMP (- margin_distance / dt) 0 (4 * bounce)"

text \<open>
  The two branches on the penetration depth; the result is the final value of the
  local \<^verbatim>\<open>bounce\<close> and the impulse.
\<close>

definition response_impulse ::
  "float3 \<Rightarrow> real \<Rightarrow> real \<Rightarrow> real \<Rightarrow> real \<Rightarrow> real \<Rightarrow> real \<times> float3" where
  "response_impulse normal margin_distance epsilon2 bounce repulse v_nor_new =
     (if margin_distance < - epsilon2
      then (bounce, mul_v3_v3fl normal (max_ff repulse bounce - v_nor_new))
      else (0, mul_v3_v3fl normal (repulse - v_nor_new)))"

text \<open>
  \<^verbatim>\<open>collision_response\<close> returns its boolean result together with \<^verbatim>\<open>r_impulse\<close>, which
  it zeroes first. The velocity of the vertex is read only after the two early
  returns. The tangential components \<^verbatim>\<open>v_tan_old\<close> and \<^verbatim>\<open>v_tan_new\<close> that the source
  computes are not used by it and are left out.
\<close>

definition collision_response ::
  "header_consts \<Rightarrow> ClothVertex list \<Rightarrow> CollisionModifierData \<Rightarrow> CollPair \<Rightarrow> real \<Rightarrow> real
     \<Rightarrow> error + (bool \<times> float3)" where
  "collision_response H verts collmd collpair dt restitution =
     (let index = cp_ap1 collpair;
          epsilon2 = collmd_bvhtree_epsilon collmd;
          margin_distance = cp_distance collpair - epsilon2;
          r_impulse = zero_v3
      in if margin_distance > 0 then Inr (False, r_impulse)
         else if cp_flag collpair AND COLLISION_IN_FUTURE H \<noteq> 0 then Inr (False, r_impulse)
         else if \<not> index < length verts then Inl OutOfBounds
         else
           (let v1 = vert_v (verts ! index);
                (v2_old, v2_new) = collmd_collider_velocity collmd collpair;
                v_rel_old = sub_v3_v3v3 v1 v2_old;
                v_rel_new = sub_v3_v3v3 v1 v2_new;
                mag_v_rel = dot_v3v3 v_rel_old (cp_normal collpair)
            in if mag_v_rel < - ALMOST_ZERO H then
                 (let v_nor_old = mag_v_rel;
                      v_nor_new = dot_v3v3 v_rel_new (cp_normal collpair);
                      bounce = response_bounce v_nor_old restitution;
                      repulse = response_repulse margin_distance dt bounce
                  in Inr (True,
                          snd (response_impulse (cp_normal collpair) margin_distance epsilon2
                                 bounce repulse v_nor_new)))
               else Inr (False, r_impulse)))"

text \<open>
  \<^verbatim>\<open>cloth_setup_constraints\<close> works on the vertex array of the cloth and on its solver.
  First loop: pinned vertices and the reset of the impulse counts.
\<close>

type_synonym setup_state = "ClothVertex list \<times> Implicit_Data"

fun setup_pinned_loop ::
  "header_consts \<Rightarrow> ClothVertex list \<Rightarrow> nat \<Rightarrow> Implicit_Data \<Rightarrow> setup_state" where
  "setup_pinned_loop H [] v data = ([], data)"
| "setup_pinned_loop H (vert # rest) v data =
     (let data1 = (if vert_flags vert AND CLOTH_VERT_FLAG_PINNED H \<noteq> 0
                   then BPH_mass_spring_add_constraint_ndof0 data v zero_v3
                   else data);
          (rest', data') = setup_pinned_loop H rest (Suc v) data1
      in (vert\<lparr>vert_impulse_count := 0\<rparr> # rest', data'))"

text \<open>
  The body of the inner loop, for the contact \<open>collpair\<close> of collider number \<open>i\<close>. The
  restitution is the constant of the source. Each \<^verbatim>\<open>continue\<close> returns the state as
  it is.
\<close>

definition setup_contact ::
  "header_consts \<Rightarrow> CollisionModifierData \<Rightarrow> nat \<Rightarrow> real \<Rightarrow> CollPair \<Rightarrow> setup_state
     \<Rightarrow> error + setup_state" where
  "setup_contact H collmd i dt collpair st =
     (let (verts, data) = st;
          v = cp_face1 collpair;
          restitution = 0
      in if \<not> v < length verts then Inl OutOfBounds
         else
           (let vert = verts ! v
            in if vert_flags vert AND CLOTH_VERT_FLAG_PINNED H \<noteq> 0 then Inr st
               else if vert_impulse_count vert > 0 then Inr st
               else
                 (case collision_response H verts collmd collpair dt restitution of
                    Inl e \<Rightarrow> Inl e
                  | Inr (False, impulse) \<Rightarrow> Inr st
                  | Inr (True, impulse) \<Rightarrow>
                      Inr (verts[v := vert\<lparr>vert_impulse_count := vert_impulse_count vert + 1\<rparr>],
                           BPH_mass_spring_add_constraint_ndof2 data i
                             (cp_normal collpair) impulse))))"

fun setup_collisions_loop ::
  "header_consts \<Rightarrow> CollisionModifierData \<Rightarrow> nat \<Rightarrow> real \<Rightarrow> CollPair list \<Rightarrow> setup_state
     \<Rightarrow> error + setup_state" where
  "setup_collisions_loop H collmd i dt [] st = Inr st"
| "setup_collisions_loop H collmd i dt (collpair # rest) st =
     (case setup_contact H collmd i dt collpair st of
        Inl e \<Rightarrow> Inl e
      | Inr st' \<Rightarrow> setup_collisions_loop H collmd i dt rest st')"

fun setup_colliders_loop ::
  "header_consts \<Rightarrow> real \<Rightarrow> ColliderContacts list \<Rightarrow> nat \<Rightarrow> setup_state
     \<Rightarrow> error + setup_state" where
  "setup_colliders_loop H dt [] i st = Inr st"
| "setup_colliders_loop H dt (ct # rest) i st =
     (case setup_collisions_loop H (ct_collmd ct) i dt (ct_collisions ct) st of
        Inl e \<Rightarrow> Inl e
      | Inr st' \<Rightarrow> setup_colliders_loop H dt rest (Suc i) st')"

definition cloth_setup_constraints ::
  "header_consts \<Rightarrow> ClothVertex list \<Rightarrow> Implicit_Data \<Rightarrow> ColliderContacts list \<Rightarrow> real
     \<Rightarrow> error + setup_state" where
  "cloth_setup_constraints H verts data contacts dt =
     setup_colliders_loop H dt contacts 0
       (setup_pinned_loop H verts 0 (BPH_mass_spring_clear_constraints data))"

section \<open>The per-frame solver result\<close>

record ClothSolverResult =
  sres_status :: "32 word"
  sres_max_error :: real
  sres_min_error :: real
  sres_avg_error :: real
  sres_max_iterations :: int
  sres_min_iterations :: int
  sres_avg_iterations :: real

record ImplicitSolverResult =
  res_status :: "32 word"
  res_iterations :: int
  res_error :: real

definition cloth_clear_result :: "ClothSolverResult \<Rightarrow> ClothSolverResult" where
  "cloth_clear_result sres =
     sres\<lparr>sres_status := 0,
           sres_max_error := 0, sres_min_error := 0, sres_avg_error := 0,
           sres_max_iterations := 0, sres_min_iterations := 0,
           sres_avg_iterations := 0\<rparr>"

text \<open>\<open>steps\<close> is a C \<^verbatim>\<open>int\<close> that is only converted to \<^verbatim>\<open>float\<close>.\<close>

definition cloth_record_result ::
  "header_consts \<Rightarrow> ClothSolverResult \<Rightarrow> ImplicitSolverResult \<Rightarrow> int \<Rightarrow> ClothSolverResult" where
  "cloth_record_result H sres result steps =
     (let sres1 =
        (if sres_status sres \<noteq> 0 then
           (let sres_e =
              (if res_status result = BPH_SOLVER_SUCCESS H
               then sres\<lparr>sres_min_error := min_ff (sres_min_error sres) (res_error result),
                         sres_max_error := max_ff (sres_max_error sres) (res_error result),
                         sres_avg_error := sres_avg_error sres + res_error result / of_int steps\<rparr>
               else sres)
            in sres_e\<lparr>sres_min_iterations :=
                        min_ii (sres_min_iterations sres_e) (res_iterations result),
                      sres_max_iterations :=
                        max_ii (sres_max_iterations sres_e) (res_iterations result),
                      sres_avg_iterations :=
                        sres_avg_iterations sres_e + of_int (res_iterations result) / of_int steps\<rparr>)
         else
           (let sres_e =
              (if res_status result = BPH_SOLVER_SUCCESS H
               then sres\<lparr>sres_min_error := res_error result,
                         sres_max_error := res_error result,
                         sres_avg_error := sres_avg_error sres + res_error result / of_int steps\<rparr>
               else sres)
            in sres_e\<lparr>sres_min_iterations := res_iterations result,
                      sres_max_iterations := res_iterations result,
                      sres_avg_iterations :=
                        sres_avg_iterations sres_e + of_int (res_iterations result) / of_int steps\<rparr>))
      in sres1\<lparr>sres_status := sres_status sres1 OR res_status result\<rparr>)"

text \<open>
  The calls of \<open>cloth_record_result\<close> that the substep loop of \<^verbatim>\<open>BPH_cloth_solve\<close> makes
  in one frame, one for the result of each substep, in order.
\<close>

fun cloth_record_results ::
  "header_consts \<Rightarrow> ClothSolverResult \<Rightarrow> ImplicitSolverResult list \<Rightarrow> int \<Rightarrow> ClothSolverResult" where
  "cloth_record_results H sres [] steps = sres"
| "cloth_record_results H sres (result # results) steps =
     cloth_record_results H (cloth_record_result H sres result steps) results steps"

section \<open>Single-precision rounding\<close>

text \<open>
  The result of an operation on C \<^verbatim>\<open>float\<close>s is the exact result rounded to the nearest
  number with a significand of 24 bits, a tie going to the even significand (IEEE 754
  binary32, the default rounding). \<open>rne\<close> rounds to the nearest integer in this way, and
  \<open>round23\<close> rounds a number between 1 and 2 to 23 fractional bits. A smaller number is
  doubled until it is at least 1, at most 126 times: below that the spacing stays
  fixed (subnormal numbers). A number from 2 on is halved first. The exponent is not
  bounded above: the overflow to infinity is outside the model.
\<close>

definition rne :: "real \<Rightarrow> int" where
  "rne y =
     (let f = \<lfloor>y\<rfloor>
      in if y - of_int f < 1 / 2 then f
         else if y - of_int f > 1 / 2 then f + 1
         else if even f then f else f + 1)"

definition round23 :: "real \<Rightarrow> real" where
  "round23 x = of_int (rne (x * 2 ^ 23)) / 2 ^ 23"

fun fl32_up :: "nat \<Rightarrow> real \<Rightarrow> real" where
  "fl32_up 0 x = round23 x"
| "fl32_up (Suc k) x = (if 1 \<le> x then round23 x else fl32_up k (2 * x) / 2)"

function fl32_pos :: "real \<Rightarrow> real" where
  "fl32_pos x = (if x < 2 then fl32_up 126 x else 2 * fl32_pos (x / 2))"
  by pat_completeness auto
termination
proof (relation "measure (\<lambda>x. nat \<lceil>x\<rceil>)")
  show "wf (measure (\<lambda>x. nat \<lceil>x\<rceil>))" by simp
next
  fix x :: real
  assume "\<not> x < 2"
  then have "\<lceil>x / 2\<rceil> < \<lceil>x\<rceil>" by linarith
  moreover have "0 < \<lceil>x\<rceil>" using \<open>\<not> x < 2\<close> by linarith
  ultimately show "(x / 2, x) \<in> measure (\<lambda>x. nat \<lceil>x\<rceil>)" by simp
qed

declare fl32_pos.simps [simp del]

definition to_float :: "real \<Rightarrow> real" where
  "to_float x = (if x < 0 then - fl32_pos (- x) else fl32_pos x)"

section \<open>The substep loop of the cloth solver\<close>


record ClothSimSettings =
  sim_flags :: "32 word"
  sim_timescale :: real
  sim_stepsPerFrame :: int












section \<open>The strand solver's substep loop\<close>

text \<open>
  \<^verbatim>\<open>BPH_strands_solve\<close> works on the strands and the solver; its state is the type
  variable \<open>'s\<close>. The statements before the loop, the body of the loop up to its last
  statement, and the statements after the loop are the parameters \<open>init\<close>, \<open>substep\<close>
  and \<open>finish\<close>; the body is given the value of \<^verbatim>\<open>step\<close> at its start. The \<^verbatim>\<open>for\<close>
  loop is written out: the last statement of the body adds \<^verbatim>\<open>dstep\<close> to \<^verbatim>\<open>step\<close>, and
  so does the header before the next test, each time in single precision. A loop that
  does not end has no result.
\<close>

partial_function (option) strands_solve_loop ::
  "(real \<Rightarrow> 's \<Rightarrow> 's) \<Rightarrow> real \<Rightarrow> real \<Rightarrow> 's \<Rightarrow> 's option" where
  "strands_solve_loop substep dstep step st =
     (if step < 1
      then strands_solve_loop substep dstep (to_float (to_float (step + dstep) + dstep))
             (substep step st)
      else Some st)"

definition BPH_strands_solve ::
  "('s \<Rightarrow> 's) \<Rightarrow> (real \<Rightarrow> 's \<Rightarrow> 's) \<Rightarrow> ('s \<Rightarrow> 's) \<Rightarrow> real \<Rightarrow> int \<Rightarrow> 's
     \<Rightarrow> (bool \<times> 's) option" where
  "BPH_strands_solve init substep finish timescale substeps st =
     (if timescale = 0 \<or> substeps < 1 then Some (False, st)
      else
        (let dstep = to_float (1 / to_float (of_int substeps))
         in case strands_solve_loop substep dstep 0 (init st) of
              None \<Rightarrow> None
            | Some st' \<Rightarrow> Some (True, finish st')))"

section \<open>Notions used in the statements\<close>

text \<open>
  The quantities \<open>collision_response\<close> computes for a contact: the distance beyond the
  margin, and the normal components of the velocity of the vertex relative to the
  collider at its old and at its new state.
\<close>

definition contact_margin_distance :: "CollisionModifierData \<Rightarrow> CollPair \<Rightarrow> real" where
  "contact_margin_distance collmd collpair =
     cp_distance collpair - collmd_bvhtree_epsilon collmd"

definition contact_v_nor_old ::
  "ClothVertex list \<Rightarrow> CollisionModifierData \<Rightarrow> CollPair \<Rightarrow> real" where
  "contact_v_nor_old verts collmd collpair =
     dot_v3v3 (sub_v3_v3v3 (vert_v (verts ! cp_ap1 collpair))
                 (fst (collmd_collider_velocity collmd collpair)))
       (cp_normal collpair)"

definition contact_v_nor_new ::
  "ClothVertex list \<Rightarrow> CollisionModifierData \<Rightarrow> CollPair \<Rightarrow> real" where
  "contact_v_nor_new verts collmd collpair =
     dot_v3v3 (sub_v3_v3v3 (vert_v (verts ! cp_ap1 collpair))
                 (snd (collmd_collider_velocity collmd collpair)))
       (cp_normal collpair)"

text \<open>Notions used to state the properties of \<open>cloth_setup_constraints\<close>.\<close>

definition vert_pinned :: "header_consts \<Rightarrow> ClothVertex \<Rightarrow> bool" where
  "vert_pinned H vert \<longleftrightarrow> vert_flags vert AND CLOTH_VERT_FLAG_PINNED H \<noteq> 0"

fun is_NDOF2 :: "constraint \<Rightarrow> bool" where
  "is_NDOF2 (NDOF2 index c1 dV) = True"
| "is_NDOF2 (NDOF0 index dV) = False"

text \<open>Every contact names vertices of the array.\<close>

definition contacts_in_range :: "ColliderContacts list \<Rightarrow> nat \<Rightarrow> bool" where
  "contacts_in_range contacts numverts \<longleftrightarrow>
     (\<forall>ct \<in> set contacts. \<forall>collpair \<in> set (ct_collisions ct).
        cp_face1 collpair < numverts \<and> cp_ap1 collpair < numverts)"

text \<open>
  The constraint that a contact gives when the bounce and the repulsion vanish: along
  the normal, with the normal scaled by the negated normal component of the new
  relative velocity as impulse.
\<close>

definition zero_restitution_constraint ::
  "ClothVertex list \<Rightarrow> ColliderContacts list \<Rightarrow> constraint \<Rightarrow> bool" where
  "zero_restitution_constraint verts contacts c \<longleftrightarrow>
     (\<exists>ct \<in> set contacts. \<exists>collpair \<in> set (ct_collisions ct). \<exists>index.
        c = NDOF2 index (cp_normal collpair)
              (mul_v3_v3fl (cp_normal collpair)
                 (- contact_v_nor_new verts (ct_collmd ct) collpair)))"

text \<open>The constraints of the pinned vertices, one for each, in the order of the array.\<close>

definition pinned_constraints :: "header_consts \<Rightarrow> ClothVertex list \<Rightarrow> constraint list" where
  "pinned_constraints H verts =
     map (\<lambda>v. NDOF0 v zero_v3) (filter (\<lambda>v. vert_pinned H (verts ! v)) [0..<length verts])"

text \<open>
  What holds of the state of \<open>cloth_setup_constraints\<close> after its first loop and after
  every contact: the array keeps its length, flags and velocities; every impulse count
  is 0 or 1, and 0 on a pinned vertex; the constraints added since the first loop are
  contact constraints with vanishing bounce and repulsion, as many as the impulse
  counts add up to.
\<close>

definition setup_inv ::
  "header_consts \<Rightarrow> ClothVertex list \<Rightarrow> constraint list \<Rightarrow> ColliderContacts list
     \<Rightarrow> setup_state \<Rightarrow> bool" where
  "setup_inv H verts0 base contacts st \<longleftrightarrow>
     length (fst st) = length verts0
     \<and> (\<forall>v < length verts0.
          vert_flags (fst st ! v) = vert_flags (verts0 ! v)
          \<and> vert_v (fst st ! v) = vert_v (verts0 ! v)
          \<and> 0 \<le> vert_impulse_count (fst st ! v)
          \<and> vert_impulse_count (fst st ! v) \<le> 1
          \<and> (vert_pinned H (verts0 ! v) \<longrightarrow> vert_impulse_count (fst st ! v) = 0))
     \<and> (\<exists>cs. id_constraints (snd st) = base @ cs
            \<and> (\<forall>c \<in> set cs. is_NDOF2 c \<and> zero_restitution_constraint verts0 contacts c)
            \<and> int (length cs) = sum_list (map vert_impulse_count (fst st)))"

text \<open>
  The substep fraction of \<open>BPH_strands_solve\<close>, the value of \<^verbatim>\<open>step\<close> at the start of its
  pass number \<open>k\<close> (counted from 0), and a loop body that only counts the passes.
\<close>

definition strands_dstep :: "int \<Rightarrow> real" where
  "strands_dstep substeps = to_float (1 / to_float (of_int substeps))"

fun strands_step_at :: "real \<Rightarrow> nat \<Rightarrow> real" where
  "strands_step_at dstep 0 = 0"
| "strands_step_at dstep (Suc k) =
     to_float (to_float (strands_step_at dstep k + dstep) + dstep)"

definition count_pass :: "real \<Rightarrow> nat \<Rightarrow> nat" where
  "count_pass step count = Suc count"



section \<open>Worked examples\<close>

text \<open>
  Concrete inputs on which the theorems below are instantiated. The header constants
  get the values 1 for the pinned flag, 2 for the in-future flag, 4 for the goal flag,
  32 for the angular-bending spring type, 1 for the success status.
\<close>

definition example_consts :: header_consts where
  "example_consts =
     \<lparr>ALMOST_ZERO = 1 / 8388608, COLLISION_IN_FUTURE = 2, CLOTH_VERT_FLAG_PINNED = 1,
      CLOTH_SPRING_TYPE_BENDING_ANG = 32, CLOTH_SIMSETTINGS_FLAG_GOAL = 4,
      BPH_SOLVER_SUCCESS = 1\<rparr>"

definition example_cloth :: Cloth where
  "example_cloth =
     \<lparr>cloth_verts = [],
      cloth_springs = [\<lparr>spring_type = 32\<rparr>, \<lparr>spring_type = 2\<rparr>, \<lparr>spring_type = 32\<rparr>],
      cloth_implicit = None\<rparr>"

definition example_vertex :: ClothVertex where
  "example_vertex =
     \<lparr>vert_flags = 0, vert_v = (0, 0, - 1), vert_x = (0, 0, 0), vert_xold = (0, 0, 0),
      vert_xconst = (1, 2, 4), vert_txold = (0, 0, 0), vert_mass = 1, vert_impulse_count = 5\<rparr>"

definition example_verts :: "ClothVertex list" where
  "example_verts = [example_vertex\<lparr>vert_flags := 1\<rparr>, example_vertex, example_vertex]"

definition example_cloth_with_solver :: Cloth where
  "example_cloth_with_solver =
     \<lparr>cloth_verts = [example_vertex, example_vertex],
      cloth_springs = [\<lparr>spring_type = 2\<rparr>],
      cloth_implicit = Some (BPH_mass_spring_solver_create 2 1)\<rparr>"

definition example_collmd :: CollisionModifierData where
  "example_collmd =
     \<lparr>collmd_bvhtree_epsilon = 1 / 10,
      collmd_collider_velocity = (\<lambda>collpair. ((0, 0, 0), (0, 0, 1 / 2)))\<rparr>"

definition example_collpair :: CollPair where
  "example_collpair =
     \<lparr>cp_ap1 = 1, cp_face1 = 1, cp_distance = 0, cp_normal = (0, 0, 1), cp_flag = 0\<rparr>"

definition example_collpair_deep :: CollPair where
  "example_collpair_deep =
     \<lparr>cp_ap1 = 1, cp_face1 = 1, cp_distance = - 1 / 5, cp_normal = (0, 0, 1), cp_flag = 0\<rparr>"

definition example_collpair_future :: CollPair where
  "example_collpair_future =
     \<lparr>cp_ap1 = 1, cp_face1 = 1, cp_distance = 0, cp_normal = (0, 0, 1), cp_flag = 2\<rparr>"

definition example_contacts :: "ColliderContacts list" where
  "example_contacts =
     [\<lparr>ct_collmd = example_collmd,
       ct_collisions = [example_collpair, example_collpair_deep,
                        example_collpair\<lparr>cp_ap1 := 0, cp_face1 := 0\<rparr>]\<rparr>]"

text \<open>One collider with a contact on each of the two free vertices.\<close>

definition example_contacts_two :: "ColliderContacts list" where
  "example_contacts_two =
     [\<lparr>ct_collmd = example_collmd,
       ct_collisions = [example_collpair, example_collpair\<lparr>cp_ap1 := 2, cp_face1 := 2\<rparr>]\<rparr>]"

definition example_results :: "ImplicitSolverResult list" where
  "example_results =
     [\<lparr>res_status = 1, res_iterations = 7, res_error = 3 / 100\<rparr>,
      \<lparr>res_status = 1, res_iterations = 4, res_error = 1 / 100\<rparr>,
      \<lparr>res_status = 1, res_iterations = 10, res_error = 2 / 100\<rparr>]"

definition example_sres :: ClothSolverResult where
  "example_sres =
     \<lparr>sres_status = 4, sres_max_error = 9, sres_min_error = 8, sres_avg_error = 7,
      sres_max_iterations = 6, sres_min_iterations = 5, sres_avg_iterations = 4\<rparr>"

definition example_parms :: ClothSimSettings where
  "example_parms = \<lparr>sim_flags = 4, sim_timescale = 1, sim_stepsPerFrame = 2\<rparr>"






section \<open>Verified properties\<close>

subsection \<open>Counting the off-diagonal blocks\<close>

lemma count_nondiag_loop_of_nat:
  "count_nondiag_loop H springs acc =
     acc + of_nat (sum_list (map (spring_vertex_pairs H) springs))"
  by (induction springs arbitrary: acc) (simp_all add: spring_vertex_pairs_def)

lemma sint_of_nat_small:
  assumes "n < 2 ^ 31" shows "sint (of_nat n :: 32 word) = int n"
proof -
  have "sint (word_of_int (int n) :: 32 word) = signed_take_bit 31 (int n)"
    by (simp only: sint_sbintrunc') simp
  also have "\<dots> = int n"
    using assms by (intro signed_take_bit_int_eq_self) simp_all
  finally show ?thesis by simp
qed

lemma cloth_solver_init_data_new:
  assumes "needs_new_solver cloth"
  shows "cloth_solver_init_data H cloth =
           ((case cloth_implicit cloth of None \<Rightarrow> [] | Some data \<Rightarrow> [Solver_Free])
              @ [Solver_Create (cloth_numverts cloth) (cloth_count_nondiag_blocks H cloth)],
            cloth\<lparr>cloth_implicit :=
                    Some (BPH_mass_spring_solver_create (cloth_numverts cloth)
                            (cloth_count_nondiag_blocks H cloth))\<rparr>)"
  using assms
  by (auto simp: needs_new_solver_def cloth_solver_init_data_def Let_def
        cloth_count_nondiag_blocks_def split: option.splits)

lemma cloth_solver_init_data_keep:
  assumes "\<not> needs_new_solver cloth"
  shows "cloth_solver_init_data H cloth = ([], cloth)"
  using assms
  by (auto simp: needs_new_solver_def cloth_solver_init_data_def Let_def split: option.splits)

text \<open>
  Claim C1. The count that \<open>cloth_count_nondiag_blocks\<close> returns is the sum over the
  springs of the body of the vertex-pair count of each spring (3 for an angular-bending
  spring, 1 for any other), as long as that sum fits the C \<^verbatim>\<open>int\<close> that holds it; and
  when \<open>cloth_solver_init_data\<close> creates the solver, it creates it for the vertex count of
  the body with exactly this number of off-diagonal blocks.
\<close>

theorem nondiag_blocks_counted:
  assumes "sum_list (map (spring_vertex_pairs H) (cloth_springs cloth)) < 2 ^ 31"
  shows "sint (cloth_count_nondiag_blocks H cloth) =
           int (sum_list (map (spring_vertex_pairs H) (cloth_springs cloth)))
         \<and> (needs_new_solver cloth \<longrightarrow>
              (\<exists>data. cloth_implicit (snd (cloth_solver_init_data H cloth)) = Some data
                 \<and> Solver_Create (cloth_numverts cloth) (id_numsprings data)
                     \<in> set (fst (cloth_solver_init_data H cloth))
                 \<and> id_numverts data = cloth_numverts cloth
                 \<and> sint (id_numsprings data) =
                     int (sum_list (map (spring_vertex_pairs H) (cloth_springs cloth)))))"
proof -
  have c: "sint (cloth_count_nondiag_blocks H cloth) =
           int (sum_list (map (spring_vertex_pairs H) (cloth_springs cloth)))"
    using assms
    by (simp add: cloth_count_nondiag_blocks_def count_nondiag_loop_of_nat sint_of_nat_small)
  show ?thesis
    using c by (simp add: cloth_solver_init_data_new BPH_mass_spring_solver_create_def)
qed

theorem nondiag_blocks_counted_witness:
  "sum_list (map (spring_vertex_pairs example_consts) (cloth_springs example_cloth)) < 2 ^ 31
   \<and> needs_new_solver example_cloth
   \<and> sint (cloth_count_nondiag_blocks example_consts example_cloth) = 7
   \<and> (\<exists>data. cloth_implicit (snd (cloth_solver_init_data example_consts example_cloth)) = Some data
          \<and> id_numverts data = 0 \<and> sint (id_numsprings data) = 7)"
proof -
  have s: "sum_list (map (spring_vertex_pairs example_consts) (cloth_springs example_cloth)) = 7"
    by (simp add: spring_vertex_pairs_def example_consts_def example_cloth_def)
  have n: "needs_new_solver example_cloth"
    by (simp add: needs_new_solver_def example_cloth_def)
  have v: "cloth_numverts example_cloth = 0"
    by (simp add: cloth_numverts_def example_cloth_def)
  from nondiag_blocks_counted [of example_consts example_cloth] s n v
  show ?thesis by auto
qed

subsection \<open>Reuse of the solver\<close>

lemma solver_init_loop_sizes:
  "id_numverts (solver_init_loop verts i data) = id_numverts data
   \<and> id_numsprings (solver_init_loop verts i data) = id_numsprings data"
  by (induction verts arbitrary: i data)
     (simp_all add: BPH_mass_spring_set_motion_state_def BPH_mass_spring_set_vertex_mass_def)

lemma set_positions_loop_sizes:
  "set_positions_loop hairdata verts i data = Inr data' \<Longrightarrow>
     id_numverts data' = id_numverts data \<and> id_numsprings data' = id_numsprings data"
  by (induction verts arbitrary: i data)
     (auto simp: BPH_mass_spring_set_motion_state_def BPH_mass_spring_set_rest_transform_def
        split: option.splits if_splits sum.splits)

lemma cloth_solver_init_data_settled:
  "\<not> needs_new_solver (snd (cloth_solver_init_data H cloth))"
proof (cases "needs_new_solver cloth")
  case True
  then show ?thesis
    by (simp add: cloth_solver_init_data_new needs_new_solver_def cloth_numverts_def
          BPH_mass_spring_solver_numvert_def BPH_mass_spring_solver_create_def)
next
  case False
  then show ?thesis by (simp add: cloth_solver_init_data_keep)
qed

text \<open>
  Claim C8. \<open>cloth_solver_init_data\<close> calls the solver's free or create only when the
  body has no solver or the solver's stored vertex count differs from the body's; free
  is called only in the second case. Once it has run, running it again makes no call.
  On a body whose solver has the body's vertex count it returns the cloth as it is, and
  \<open>BPH_cloth_solver_init\<close> and \<open>BPH_cloth_solver_set_positions\<close> make no free or create
  call and keep the solver's two sizes.
\<close>

theorem solver_reused_unless_vertex_count_changes:
  "(fst (cloth_solver_init_data H cloth) \<noteq> [] \<longleftrightarrow> needs_new_solver cloth)
   \<and> (Solver_Free \<in> set (fst (cloth_solver_init_data H cloth)) \<longleftrightarrow>
        (\<exists>data. cloth_implicit cloth = Some data
           \<and> cloth_numverts cloth \<noteq> BPH_mass_spring_solver_numvert data))
   \<and> \<not> needs_new_solver (snd (cloth_solver_init_data H cloth))
   \<and> (\<forall>data. cloth_implicit cloth = Some data
          \<and> cloth_numverts cloth = BPH_mass_spring_solver_numvert data \<longrightarrow>
          cloth_solver_init_data H cloth = ([], cloth)
          \<and> fst (BPH_cloth_solver_init H cloth) = []
          \<and> (\<exists>data'. cloth_implicit (snd (BPH_cloth_solver_init H cloth)) = Some data'
                \<and> id_numverts data' = id_numverts data
                \<and> id_numsprings data' = id_numsprings data)
          \<and> fst (BPH_cloth_solver_set_positions H hairdata cloth) = []
          \<and> (\<forall>cloth'. snd (BPH_cloth_solver_set_positions H hairdata cloth) = Inr cloth' \<longrightarrow>
                (\<exists>data'. cloth_implicit cloth' = Some data'
                   \<and> id_numverts data' = id_numverts data
                   \<and> id_numsprings data' = id_numsprings data)))"
proof (intro conjI allI impI)
  show "fst (cloth_solver_init_data H cloth) \<noteq> [] \<longleftrightarrow> needs_new_solver cloth"
    by (cases "needs_new_solver cloth")
       (simp_all add: cloth_solver_init_data_new cloth_solver_init_data_keep)
  show "Solver_Free \<in> set (fst (cloth_solver_init_data H cloth)) \<longleftrightarrow>
        (\<exists>data. cloth_implicit cloth = Some data
           \<and> cloth_numverts cloth \<noteq> BPH_mass_spring_solver_numvert data)"
    by (cases "needs_new_solver cloth")
       (auto simp: cloth_solver_init_data_new cloth_solver_init_data_keep needs_new_solver_def
          split: option.splits)
  show "\<not> needs_new_solver (snd (cloth_solver_init_data H cloth))"
    by (rule cloth_solver_init_data_settled)
next
  fix data
  assume a: "cloth_implicit cloth = Some data
          \<and> cloth_numverts cloth = BPH_mass_spring_solver_numvert data"
  then have k: "\<not> needs_new_solver cloth" by (simp add: needs_new_solver_def)
  show "cloth_solver_init_data H cloth = ([], cloth)"
    using k by (rule cloth_solver_init_data_keep)
  show "fst (BPH_cloth_solver_init H cloth) = []"
    using k by (simp add: BPH_cloth_solver_init_def cloth_solver_init_data_keep)
  show "\<exists>data'. cloth_implicit (snd (BPH_cloth_solver_init H cloth)) = Some data'
                \<and> id_numverts data' = id_numverts data
                \<and> id_numsprings data' = id_numsprings data"
    using k a by (simp add: BPH_cloth_solver_init_def cloth_solver_init_data_keep solver_init_loop_sizes)
  show "fst (BPH_cloth_solver_set_positions H hairdata cloth) = []"
    using k by (simp add: BPH_cloth_solver_set_positions_def cloth_solver_init_data_keep)
  fix cloth'
  assume "snd (BPH_cloth_solver_set_positions H hairdata cloth) = Inr cloth'"
  then show "\<exists>data'. cloth_implicit cloth' = Some data'
                   \<and> id_numverts data' = id_numverts data
                   \<and> id_numsprings data' = id_numsprings data"
    using k a
    by (auto simp: BPH_cloth_solver_set_positions_def cloth_solver_init_data_keep
          split: sum.splits dest: set_positions_loop_sizes)
qed

theorem solver_reused_unless_vertex_count_changes_witness:
  "cloth_implicit example_cloth_with_solver = Some (BPH_mass_spring_solver_create 2 1)
   \<and> cloth_numverts example_cloth_with_solver
       = BPH_mass_spring_solver_numvert (BPH_mass_spring_solver_create 2 1)
   \<and> cloth_solver_init_data example_consts example_cloth_with_solver
       = ([], example_cloth_with_solver)
   \<and> fst (BPH_cloth_solver_init example_consts example_cloth_with_solver) = []
   \<and> fst (BPH_cloth_solver_set_positions example_consts None example_cloth_with_solver) = []"
proof -
  have a: "cloth_implicit example_cloth_with_solver = Some (BPH_mass_spring_solver_create 2 1)"
    by (simp add: example_cloth_with_solver_def)
  have b: "cloth_numverts example_cloth_with_solver
       = BPH_mass_spring_solver_numvert (BPH_mass_spring_solver_create 2 1)"
    by (simp add: example_cloth_with_solver_def cloth_numverts_def
          BPH_mass_spring_solver_numvert_def BPH_mass_spring_solver_create_def)
  from solver_reused_unless_vertex_count_changes [of example_consts example_cloth_with_solver None] a b
  show ?thesis by blast
qed

subsection \<open>The response to one contact\<close>

lemma collision_response_cases:
  "collision_response H verts collmd collpair dt restitution =
     (if contact_margin_distance collmd collpair > 0 then Inr (False, zero_v3)
      else if cp_flag collpair AND COLLISION_IN_FUTURE H \<noteq> 0 then Inr (False, zero_v3)
      else if \<not> cp_ap1 collpair < length verts then Inl OutOfBounds
      else if contact_v_nor_old verts collmd collpair < - ALMOST_ZERO H
      then Inr (True,
                snd (response_impulse (cp_normal collpair)
                       (contact_margin_distance collmd collpair)
                       (collmd_bvhtree_epsilon collmd)
                       (response_bounce (contact_v_nor_old verts collmd collpair) restitution)
                       (response_repulse (contact_margin_distance collmd collpair) dt
                          (response_bounce (contact_v_nor_old verts collmd collpair) restitution))
                       (contact_v_nor_new verts collmd collpair)))
      else Inr (False, zero_v3))"
  by (simp add: collision_response_def contact_margin_distance_def contact_v_nor_old_def
        contact_v_nor_new_def Let_def split_beta)

text \<open>
  Claim C5. For a contact whose vertex index is inside the vertex array,
  \<open>collision_response\<close> returns false with the zero impulse whenever the contact is
  flagged as in the future, or the normal component of the old relative velocity is
  not negative, or the distance of the contact exceeds the collision margin; it returns
  true only when none of the three is the case. Whenever it returns false the impulse
  is zero. (The test of the source is against \<open>- ALMOST_ZERO\<close>, a header constant that
  is taken to be non-negative.)
\<close>

theorem collision_response_gating:
  assumes "0 \<le> ALMOST_ZERO H" and "cp_ap1 collpair < length verts"
  shows "\<exists>result impulse.
           collision_response H verts collmd collpair dt restitution = Inr (result, impulse)
           \<and> (cp_flag collpair AND COLLISION_IN_FUTURE H \<noteq> 0
                \<or> \<not> contact_v_nor_old verts collmd collpair < 0
                \<or> cp_distance collpair > collmd_bvhtree_epsilon collmd
              \<longrightarrow> \<not> result \<and> impulse = zero_v3)
           \<and> (result \<longrightarrow>
                cp_flag collpair AND COLLISION_IN_FUTURE H = 0
                \<and> contact_v_nor_old verts collmd collpair < 0
                \<and> cp_distance collpair \<le> collmd_bvhtree_epsilon collmd)
           \<and> (\<not> result \<longrightarrow> impulse = zero_v3)"
proof (cases "contact_margin_distance collmd collpair > 0
              \<or> cp_flag collpair AND COLLISION_IN_FUTURE H \<noteq> 0
              \<or> \<not> contact_v_nor_old verts collmd collpair < - ALMOST_ZERO H")
  case True
  then have "collision_response H verts collmd collpair dt restitution = Inr (False, zero_v3)"
    using assms(2) by (auto simp: collision_response_cases)
  then show ?thesis by (intro exI [of _ False] exI [of _ zero_v3]) simp
next
  case False
  then obtain impulse where
    "collision_response H verts collmd collpair dt restitution = Inr (True, impulse)"
    using assms(2) by (auto simp: collision_response_cases)
  moreover have "cp_flag collpair AND COLLISION_IN_FUTURE H = 0"
    and "contact_v_nor_old verts collmd collpair < 0"
    and "cp_distance collpair \<le> collmd_bvhtree_epsilon collmd"
    using False assms(1) by (auto simp: contact_margin_distance_def)
  ultimately show ?thesis by (intro exI [of _ True] exI [of _ impulse]) simp
qed

lemma response_repulse_range:
  assumes "0 \<le> bounce"
  shows "0 \<le> response_repulse margin_distance dt bounce
         \<and> response_repulse margin_distance dt bounce \<le> 4 * bounce
         \<and> response_repulse margin_distance dt bounce
             = max 0 (min (4 * bounce) (- margin_distance / dt))"
  using assms by (simp add: response_repulse_def CLAMP_def)

text \<open>
  Claim C4. When \<open>collision_response\<close> responds to a contact, with a non-negative
  restitution and a non-zero time step, the bounce term is the restitution times the
  inward old normal velocity, and the repulsion term is the penetration depth over the
  time step clamped between 0 and 4 times the bounce term. If the contact is deeper
  than the margin, the impulse is the normal scaled by the larger of repulsion and
  bounce minus the new normal velocity; otherwise the local bounce ends as zero and the
  impulse is the normal scaled by the repulsion minus the new normal velocity.
\<close>

theorem repulsion_clamped:
  assumes "0 \<le> ALMOST_ZERO H" and "0 \<le> restitution" and "dt \<noteq> 0"
    and "collision_response H verts collmd collpair dt restitution = Inr (True, impulse)"
  shows "\<exists>bounce repulse.
           bounce = restitution * (- contact_v_nor_old verts collmd collpair)
           \<and> repulse = response_repulse (contact_margin_distance collmd collpair) dt bounce
           \<and> repulse = max 0 (min (4 * bounce) (- contact_margin_distance collmd collpair / dt))
           \<and> 0 \<le> repulse \<and> repulse \<le> 4 * bounce
           \<and> (contact_margin_distance collmd collpair < - collmd_bvhtree_epsilon collmd \<longrightarrow>
                response_impulse (cp_normal collpair) (contact_margin_distance collmd collpair)
                    (collmd_bvhtree_epsilon collmd) bounce repulse
                    (contact_v_nor_new verts collmd collpair)
                  = (bounce, impulse)
                \<and> impulse = mul_v3_v3fl (cp_normal collpair)
                      (max repulse bounce - contact_v_nor_new verts collmd collpair))
           \<and> (\<not> contact_margin_distance collmd collpair < - collmd_bvhtree_epsilon collmd \<longrightarrow>
                response_impulse (cp_normal collpair) (contact_margin_distance collmd collpair)
                    (collmd_bvhtree_epsilon collmd) bounce repulse
                    (contact_v_nor_new verts collmd collpair)
                  = (0, impulse)
                \<and> impulse = mul_v3_v3fl (cp_normal collpair)
                      (repulse - contact_v_nor_new verts collmd collpair))"
proof -
  let ?b = "restitution * (- contact_v_nor_old verts collmd collpair)"
  let ?m = "contact_margin_distance collmd collpair"
  let ?r = "response_repulse ?m dt ?b"
  have resp: "contact_v_nor_old verts collmd collpair < - ALMOST_ZERO H"
    and imp: "impulse = snd (response_impulse (cp_normal collpair) ?m
                       (collmd_bvhtree_epsilon collmd) ?b ?r
                       (contact_v_nor_new verts collmd collpair))"
    using assms(4)
    by (auto simp: collision_response_cases response_bounce_def mult.commute split: if_splits)
  have "0 \<le> ?b" using resp assms(1,2) by (intro mult_nonneg_nonneg) simp_all
  then have rng: "0 \<le> ?r \<and> ?r \<le> 4 * ?b \<and> ?r = max 0 (min (4 * ?b) (- ?m / dt))"
    by (rule response_repulse_range)
  have r1: "?r = max 0 (min (4 * ?b) (- ?m / dt))" and r2: "0 \<le> ?r" and r3: "?r \<le> 4 * ?b"
    using rng by blast+
  have deep: "?m < - collmd_bvhtree_epsilon collmd \<Longrightarrow>
      response_impulse (cp_normal collpair) ?m (collmd_bvhtree_epsilon collmd) ?b ?r
          (contact_v_nor_new verts collmd collpair) = (?b, impulse)
      \<and> impulse = mul_v3_v3fl (cp_normal collpair)
            (max ?r ?b - contact_v_nor_new verts collmd collpair)"
    unfolding imp by (simp add: response_impulse_def max_ff_def max_def)
  have shallow: "\<not> ?m < - collmd_bvhtree_epsilon collmd \<Longrightarrow>
      response_impulse (cp_normal collpair) ?m (collmd_bvhtree_epsilon collmd) ?b ?r
          (contact_v_nor_new verts collmd collpair) = (0, impulse)
      \<and> impulse = mul_v3_v3fl (cp_normal collpair)
            (?r - contact_v_nor_new verts collmd collpair)"
    unfolding imp by (simp add: response_impulse_def)
  show ?thesis
    using r1 r2 r3 deep shallow by blast
qed

lemmas example_defs =
  example_consts_def example_verts_def example_vertex_def example_collmd_def
  example_collpair_def example_collpair_deep_def example_collpair_future_def

lemma example_response:
  "collision_response example_consts example_verts example_collmd example_collpair (1 / 5) 0
     = Inr (True, (0, 0, 3 / 2))"
  by (simp add: collision_response_def example_defs Let_def response_bounce_def
        response_repulse_def response_impulse_def CLAMP_def max_ff_def)

lemma example_response_future:
  "collision_response example_consts example_verts example_collmd example_collpair_future (1 / 5) 0
     = Inr (False, zero_v3)"
  by (simp add: collision_response_def example_defs Let_def)

lemma example_response_deep:
  "collision_response example_consts example_verts example_collmd example_collpair_deep
     (1 / 5) (1 / 2) = Inr (True, (0, 0, 3))"
  by (simp add: collision_response_def example_defs Let_def response_bounce_def
        response_repulse_def response_impulse_def CLAMP_def max_ff_def)

lemma example_response_shallow:
  "collision_response example_consts example_verts example_collmd example_collpair
     (1 / 5) (1 / 2) = Inr (True, (0, 0, 2))"
  by (simp add: collision_response_def example_defs Let_def response_bounce_def
        response_repulse_def response_impulse_def CLAMP_def max_ff_def)

theorem collision_response_gating_witness:
  "0 \<le> ALMOST_ZERO example_consts
   \<and> cp_ap1 example_collpair < length example_verts
   \<and> cp_ap1 example_collpair_future < length example_verts
   \<and> collision_response example_consts example_verts example_collmd example_collpair (1 / 5) 0
       = Inr (True, (0, 0, 3 / 2))
   \<and> cp_flag example_collpair AND COLLISION_IN_FUTURE example_consts = 0
   \<and> contact_v_nor_old example_verts example_collmd example_collpair < 0
   \<and> cp_distance example_collpair \<le> collmd_bvhtree_epsilon example_collmd
   \<and> cp_flag example_collpair_future AND COLLISION_IN_FUTURE example_consts \<noteq> 0
   \<and> collision_response example_consts example_verts example_collmd example_collpair_future
         (1 / 5) 0 = Inr (False, zero_v3)"
proof -
  have h1: "0 \<le> ALMOST_ZERO example_consts" by (simp add: example_defs)
  have h2: "cp_ap1 example_collpair < length example_verts" by (simp add: example_defs)
  have h3: "cp_ap1 example_collpair_future < length example_verts" by (simp add: example_defs)
  have f: "cp_flag example_collpair_future AND COLLISION_IN_FUTURE example_consts \<noteq> 0"
    by (simp add: example_defs)
  from collision_response_gating [OF h1 h2, of example_collmd "1 / 5" 0]
  have a: "cp_flag example_collpair AND COLLISION_IN_FUTURE example_consts = 0
     \<and> contact_v_nor_old example_verts example_collmd example_collpair < 0
     \<and> cp_distance example_collpair \<le> collmd_bvhtree_epsilon example_collmd"
    by (auto simp: example_response)
  from collision_response_gating [OF h1 h3, of example_collmd "1 / 5" 0] f
  have b: "collision_response example_consts example_verts example_collmd example_collpair_future
         (1 / 5) 0 = Inr (False, zero_v3)"
    by auto
  show ?thesis using h1 h2 h3 f a b example_response by simp
qed

theorem repulsion_clamped_witness:
  "0 \<le> ALMOST_ZERO example_consts \<and> (0::real) \<le> 1 / 2 \<and> (1::real) / 5 \<noteq> 0
   \<and> collision_response example_consts example_verts example_collmd example_collpair_deep
        (1 / 5) (1 / 2) = Inr (True, (0, 0, 3))
   \<and> contact_margin_distance example_collmd example_collpair_deep
        < - collmd_bvhtree_epsilon example_collmd
   \<and> response_repulse (contact_margin_distance example_collmd example_collpair_deep) (1 / 5)
        (1 / 2 * (- contact_v_nor_old example_verts example_collmd example_collpair_deep))
        \<le> 4 * (1 / 2 * (- contact_v_nor_old example_verts example_collmd example_collpair_deep))
   \<and> collision_response example_consts example_verts example_collmd example_collpair
        (1 / 5) (1 / 2) = Inr (True, (0, 0, 2))
   \<and> \<not> contact_margin_distance example_collmd example_collpair
        < - collmd_bvhtree_epsilon example_collmd
   \<and> response_repulse (contact_margin_distance example_collmd example_collpair) (1 / 5)
        (1 / 2 * (- contact_v_nor_old example_verts example_collmd example_collpair))
        \<le> 4 * (1 / 2 * (- contact_v_nor_old example_verts example_collmd example_collpair))"
proof -
  have h1: "0 \<le> ALMOST_ZERO example_consts" by (simp add: example_defs)
  have h2: "(0::real) \<le> 1 / 2" and h3: "(1::real) / 5 \<noteq> 0" by simp_all
  have d: "contact_margin_distance example_collmd example_collpair_deep
        < - collmd_bvhtree_epsilon example_collmd"
    by (simp add: contact_margin_distance_def example_defs)
  have s: "\<not> contact_margin_distance example_collmd example_collpair
        < - collmd_bvhtree_epsilon example_collmd"
    by (simp add: contact_margin_distance_def example_defs)
  from repulsion_clamped [OF h1 h2 h3 example_response_deep]
  have a: "response_repulse (contact_margin_distance example_collmd example_collpair_deep) (1 / 5)
        (1 / 2 * (- contact_v_nor_old example_verts example_collmd example_collpair_deep))
        \<le> 4 * (1 / 2 * (- contact_v_nor_old example_verts example_collmd example_collpair_deep))"
    by blast
  from repulsion_clamped [OF h1 h2 h3 example_response_shallow]
  have b: "response_repulse (contact_margin_distance example_collmd example_collpair) (1 / 5)
        (1 / 2 * (- contact_v_nor_old example_verts example_collmd example_collpair))
        \<le> 4 * (1 / 2 * (- contact_v_nor_old example_verts example_collmd example_collpair))"
    by blast
  show ?thesis
    using h1 d s a b example_response_deep example_response_shallow by simp
qed

subsection \<open>Constraint set-up\<close>

lemma response_zero_restitution:
  assumes "collision_response H verts collmd collpair dt 0 = Inr (True, impulse)"
  shows "impulse = mul_v3_v3fl (cp_normal collpair) (- contact_v_nor_new verts collmd collpair)"
proof -
  have b: "response_bounce (contact_v_nor_old verts collmd collpair) 0 = 0"
    by (simp add: response_bounce_def)
  have r: "response_repulse (contact_margin_distance collmd collpair) dt 0 = 0"
    by (simp add: response_repulse_def CLAMP_def)
  show ?thesis
    using assms
    by (simp add: collision_response_cases b r response_impulse_def max_ff_def split: if_splits)
qed

lemma collision_response_total:
  assumes "cp_ap1 collpair < length verts"
  shows "\<exists>r. collision_response H verts collmd collpair dt restitution = Inr r"
  using assms by (simp only: collision_response_cases split: if_split) blast

lemma setup_contact_step:
  assumes "cp_face1 collpair < length verts" and "cp_ap1 collpair < length verts"
  shows "setup_contact H collmd i dt collpair (verts, data) = Inr (verts, data)
       \<or> (\<exists>impulse.
            collision_response H verts collmd collpair dt 0 = Inr (True, impulse)
            \<and> \<not> vert_pinned H (verts ! cp_face1 collpair)
            \<and> \<not> vert_impulse_count (verts ! cp_face1 collpair) > 0
            \<and> setup_contact H collmd i dt collpair (verts, data) =
                Inr (verts[cp_face1 collpair :=
                       (verts ! cp_face1 collpair)
                         \<lparr>vert_impulse_count :=
                            vert_impulse_count (verts ! cp_face1 collpair) + 1\<rparr>],
                     data\<lparr>id_constraints :=
                            id_constraints data
                              @ [NDOF2 i (cp_normal collpair) impulse]\<rparr>))"
proof -
  obtain result impulse where
    r: "collision_response H verts collmd collpair dt 0 = Inr (result, impulse)"
    using collision_response_total [OF assms(2)] by (metis surj_pair)
  show ?thesis
    using assms(1) r
    by (cases result)
       (simp_all add: setup_contact_def Let_def vert_pinned_def
          BPH_mass_spring_add_constraint_ndof2_def)
qed

lemma sum_list_map_update:
  fixes f :: "'a \<Rightarrow> int"
  shows "k < length xs \<Longrightarrow>
           sum_list (map f (xs[k := y])) = sum_list (map f xs) - f (xs ! k) + f y"
proof (induction xs arbitrary: k)
  case Nil
  then show ?case by simp
next
  case (Cons x xs)
  then show ?case by (cases k) simp_all
qed

lemma contact_v_nor_new_cong:
  assumes "vert_v (verts ! cp_ap1 collpair) = vert_v (verts0 ! cp_ap1 collpair)"
  shows "contact_v_nor_new verts collmd collpair = contact_v_nor_new verts0 collmd collpair"
  using assms by (simp add: contact_v_nor_new_def)

lemma setup_contact_inv:
  assumes inv: "setup_inv H verts0 base contacts st"
    and ct: "ct \<in> set contacts" and cp: "collpair \<in> set (ct_collisions ct)"
    and f1: "cp_face1 collpair < length verts0" and a1: "cp_ap1 collpair < length verts0"
  shows "\<exists>st'. setup_contact H (ct_collmd ct) i dt collpair st = Inr st'
               \<and> setup_inv H verts0 base contacts st'"
proof -
  obtain verts data where st: "st = (verts, data)" by (cases st)
  have len: "length verts = length verts0"
    using inv by (simp add: setup_inv_def st)
  have per: "\<And>v. v < length verts0 \<Longrightarrow>
          vert_flags (verts ! v) = vert_flags (verts0 ! v)
          \<and> vert_v (verts ! v) = vert_v (verts0 ! v)
          \<and> 0 \<le> vert_impulse_count (verts ! v)
          \<and> vert_impulse_count (verts ! v) \<le> 1
          \<and> (vert_pinned H (verts0 ! v) \<longrightarrow> vert_impulse_count (verts ! v) = 0)"
    using inv by (simp add: setup_inv_def st)
  obtain cs where cs: "id_constraints data = base @ cs"
    and csP: "\<forall>c \<in> set cs. is_NDOF2 c \<and> zero_restitution_constraint verts0 contacts c"
    and csL: "int (length cs) = sum_list (map vert_impulse_count verts)"
    using inv by (auto simp: setup_inv_def st)
  let ?v = "cp_face1 collpair"
  from setup_contact_step [of collpair verts H "ct_collmd ct" i dt data] f1 a1 len
  consider (skip) "setup_contact H (ct_collmd ct) i dt collpair (verts, data) = Inr (verts, data)"
    | (accept) impulse where
        "collision_response H verts (ct_collmd ct) collpair dt 0 = Inr (True, impulse)"
        "\<not> vert_pinned H (verts ! ?v)"
        "\<not> vert_impulse_count (verts ! ?v) > 0"
        "setup_contact H (ct_collmd ct) i dt collpair (verts, data) =
           Inr (verts[?v := (verts ! ?v)\<lparr>vert_impulse_count := vert_impulse_count (verts ! ?v) + 1\<rparr>],
                data\<lparr>id_constraints := id_constraints data @ [NDOF2 i (cp_normal collpair) impulse]\<rparr>)"
    by auto
  then show ?thesis
  proof cases
    case skip
    then show ?thesis using inv st by simp
  next
    case accept
    let ?vert' = "(verts ! ?v)\<lparr>vert_impulse_count := vert_impulse_count (verts ! ?v) + 1\<rparr>"
    let ?verts' = "verts[?v := ?vert']"
    let ?c = "NDOF2 i (cp_normal collpair) impulse"
    have c0: "vert_impulse_count (verts ! ?v) = 0"
      using per [OF f1] accept(3) by simp
    have np: "\<not> vert_pinned H (verts0 ! ?v)"
      using per [OF f1] accept(2) by (simp add: vert_pinned_def)
    have imp: "impulse = mul_v3_v3fl (cp_normal collpair)
                 (- contact_v_nor_new verts0 (ct_collmd ct) collpair)"
      using response_zero_restitution [OF accept(1)] contact_v_nor_new_cong [of verts collpair verts0]
        per [OF a1] by simp
    have zr: "zero_restitution_constraint verts0 contacts ?c"
      unfolding zero_restitution_constraint_def imp using ct cp by blast
    have per': "\<And>v. v < length verts0 \<Longrightarrow>
          vert_flags (?verts' ! v) = vert_flags (verts0 ! v)
          \<and> vert_v (?verts' ! v) = vert_v (verts0 ! v)
          \<and> 0 \<le> vert_impulse_count (?verts' ! v)
          \<and> vert_impulse_count (?verts' ! v) \<le> 1
          \<and> (vert_pinned H (verts0 ! v) \<longrightarrow> vert_impulse_count (?verts' ! v) = 0)"
    proof -
      fix v assume v: "v < length verts0"
      show "vert_flags (?verts' ! v) = vert_flags (verts0 ! v)
          \<and> vert_v (?verts' ! v) = vert_v (verts0 ! v)
          \<and> 0 \<le> vert_impulse_count (?verts' ! v)
          \<and> vert_impulse_count (?verts' ! v) \<le> 1
          \<and> (vert_pinned H (verts0 ! v) \<longrightarrow> vert_impulse_count (?verts' ! v) = 0)"
      proof (cases "v = ?v")
        case True
        then show ?thesis using per [OF f1] f1 len c0 np by simp
      next
        case False
        then show ?thesis using per [OF v] by simp
      qed
    qed
    have sum': "sum_list (map vert_impulse_count ?verts') = int (length cs) + 1"
      using f1 len c0 csL by (simp add: sum_list_map_update)
    have "setup_inv H verts0 base contacts
            (?verts', data\<lparr>id_constraints := id_constraints data @ [?c]\<rparr>)"
      unfolding setup_inv_def
    proof (intro conjI)
      show "length (fst (?verts', data\<lparr>id_constraints := id_constraints data @ [?c]\<rparr>)) = length verts0"
        using len by simp
      show "\<forall>v<length verts0.
          vert_flags (fst (?verts', data\<lparr>id_constraints := id_constraints data @ [?c]\<rparr>) ! v) = vert_flags (verts0 ! v)
          \<and> vert_v (fst (?verts', data\<lparr>id_constraints := id_constraints data @ [?c]\<rparr>) ! v) = vert_v (verts0 ! v)
          \<and> 0 \<le> vert_impulse_count (fst (?verts', data\<lparr>id_constraints := id_constraints data @ [?c]\<rparr>) ! v)
          \<and> vert_impulse_count (fst (?verts', data\<lparr>id_constraints := id_constraints data @ [?c]\<rparr>) ! v) \<le> 1
          \<and> (vert_pinned H (verts0 ! v) \<longrightarrow>
               vert_impulse_count (fst (?verts', data\<lparr>id_constraints := id_constraints data @ [?c]\<rparr>) ! v) = 0)"
        using per' by (simp only: fst_conv) blast
      show "\<exists>cs'. id_constraints (snd (?verts', data\<lparr>id_constraints := id_constraints data @ [?c]\<rparr>)) = base @ cs'
            \<and> (\<forall>c \<in> set cs'. is_NDOF2 c \<and> zero_restitution_constraint verts0 contacts c)
            \<and> int (length cs') = sum_list (map vert_impulse_count
                  (fst (?verts', data\<lparr>id_constraints := id_constraints data @ [?c]\<rparr>)))"
        using cs csP zr sum' by (intro exI [of _ "cs @ [?c]"]) simp
    qed
    then show ?thesis using accept(4) st by simp
  qed
qed

lemma setup_pinned_loop_eq:
  "setup_pinned_loop H verts v data =
     (map (\<lambda>vert. vert\<lparr>vert_impulse_count := 0\<rparr>) verts,
      data\<lparr>id_constraints :=
             id_constraints data
               @ map (\<lambda>(v, vert). NDOF0 v zero_v3)
                   (filter (\<lambda>(v, vert). vert_pinned H vert) (enumerate v verts))\<rparr>)"
  by (induction verts arbitrary: v data)
     (simp_all add: BPH_mass_spring_add_constraint_ndof0_def vert_pinned_def)

lemma pinned_constraints_enumerate:
  "map (\<lambda>(v, vert). NDOF0 v zero_v3)
     (filter (\<lambda>(v, vert). vert_pinned H vert) (enumerate 0 verts))
   = pinned_constraints H verts"
proof -
  have "enumerate 0 verts = map (\<lambda>v. (v, verts ! v)) [0..<length verts]"
    using enumerate_map_upt [of 0 "\<lambda>v. verts ! v" "length verts"] by (simp add: map_nth)
  then show ?thesis
    by (simp add: pinned_constraints_def filter_map comp_def)
qed

lemma pinned_constraints_not_NDOF2:
  "c \<in> set (pinned_constraints H verts) \<Longrightarrow> \<not> is_NDOF2 c"
  by (auto simp: pinned_constraints_def)

lemma setup_contact_skip:
  assumes "cp_face1 collpair < length vs"
    and "vert_pinned H (vs ! cp_face1 collpair) \<or> 0 < vert_impulse_count (vs ! cp_face1 collpair)"
  shows "setup_contact H collmd i dt collpair (vs, d) = Inr (vs, d)"
  using assms by (auto simp: setup_contact_def Let_def vert_pinned_def)

lemma example_contacts_in_range: "contacts_in_range example_contacts (length example_verts)"
  by (simp add: contacts_in_range_def example_contacts_def example_defs)

lemma example_setup:
  "map_sum id (\<lambda>st. (map vert_impulse_count (fst st), id_constraints (snd st)))
     (cloth_setup_constraints example_consts example_verts
        (BPH_mass_spring_solver_create 3 0) example_contacts (1 / 5))
   = Inr ([0, 1, 0], [NDOF0 0 zero_v3, NDOF2 0 (0, 0, 1) (0, 0, 3 / 2)])"
  by (simp add: cloth_setup_constraints_def example_contacts_def example_defs
        BPH_mass_spring_solver_create_def BPH_mass_spring_clear_constraints_def
        BPH_mass_spring_add_constraint_ndof0_def BPH_mass_spring_add_constraint_ndof2_def
        setup_contact_def collision_response_def Let_def zero_v3_def
        response_bounce_def response_repulse_def response_impulse_def CLAMP_def max_ff_def)

lemma example_setup_two:
  "map_sum id (\<lambda>st. (map vert_impulse_count (fst st), id_constraints (snd st)))
     (cloth_setup_constraints example_consts example_verts
        (BPH_mass_spring_solver_create 3 0) example_contacts_two (1 / 5))
   = Inr ([0, 1, 1],
          [NDOF0 0 zero_v3, NDOF2 0 (0, 0, 1) (0, 0, 3 / 2), NDOF2 0 (0, 0, 1) (0, 0, 3 / 2)])"
  by (simp add: cloth_setup_constraints_def example_contacts_two_def example_defs
        BPH_mass_spring_solver_create_def BPH_mass_spring_clear_constraints_def
        BPH_mass_spring_add_constraint_ndof0_def BPH_mass_spring_add_constraint_ndof2_def
        setup_contact_def collision_response_def Let_def zero_v3_def
        response_bounce_def response_repulse_def response_impulse_def CLAMP_def max_ff_def)

lemma collision_response_cong:
  assumes "length vs = length verts0"
    and "vert_v (vs ! cp_ap1 collpair) = vert_v (verts0 ! cp_ap1 collpair)"
  shows "collision_response H vs collmd collpair dt restitution
       = collision_response H verts0 collmd collpair dt restitution"
  using assms
  by (simp add: collision_response_cases contact_v_nor_old_def contact_v_nor_new_def)

lemma setup_contact_accept:
  assumes "cp_face1 collpair < length vs"
    and "\<not> vert_pinned H (vs ! cp_face1 collpair)"
    and "\<not> 0 < vert_impulse_count (vs ! cp_face1 collpair)"
    and "collision_response H vs collmd collpair dt 0 = Inr (True, impulse)"
  shows "setup_contact H collmd i dt collpair (vs, d) =
           Inr (vs[cp_face1 collpair :=
                     (vs ! cp_face1 collpair)
                       \<lparr>vert_impulse_count := vert_impulse_count (vs ! cp_face1 collpair) + 1\<rparr>],
                d\<lparr>id_constraints := id_constraints d @ [NDOF2 i (cp_normal collpair) impulse]\<rparr>)"
  using assms
  by (simp add: setup_contact_def Let_def vert_pinned_def BPH_mass_spring_add_constraint_ndof2_def)

lemma setup_contact_reject:
  assumes "cp_face1 collpair < length vs"
    and "collision_response H vs collmd collpair dt 0 = Inr (False, impulse)"
  shows "setup_contact H collmd i dt collpair (vs, d) = Inr (vs, d)"
  using assms by (simp add: setup_contact_def Let_def)

lemma setup_contact_live:
  assumes inv: "setup_inv H verts0 base contacts st"
    and ct: "ct \<in> set contacts" and cp: "collpair \<in> set (ct_collisions ct)"
    and f1: "cp_face1 collpair < length verts0" and a1: "cp_ap1 collpair < length verts0"
  shows "\<exists>st'. setup_contact H (ct_collmd ct) i dt collpair st = Inr st'
               \<and> setup_inv H verts0 base contacts st'
               \<and> (\<forall>v < length verts0. vert_impulse_count (fst st ! v) = 1
                      \<longrightarrow> vert_impulse_count (fst st' ! v) = 1)
               \<and> (\<forall>impulse. \<not> vert_pinned H (verts0 ! cp_face1 collpair)
                      \<and> collision_response H verts0 (ct_collmd ct) collpair dt 0
                          = Inr (True, impulse)
                      \<longrightarrow> vert_impulse_count (fst st' ! cp_face1 collpair) = 1)"
proof -
  obtain verts data where st: "st = (verts, data)" by (cases st)
  have len: "length verts = length verts0"
    using inv by (simp add: setup_inv_def st)
  have per: "\<And>v. v < length verts0 \<Longrightarrow>
          vert_flags (verts ! v) = vert_flags (verts0 ! v)
          \<and> vert_v (verts ! v) = vert_v (verts0 ! v)
          \<and> 0 \<le> vert_impulse_count (verts ! v)
          \<and> vert_impulse_count (verts ! v) \<le> 1"
    using inv by (simp add: setup_inv_def st)
  let ?v = "cp_face1 collpair"
  let ?verts' = "verts[?v := (verts ! ?v)\<lparr>vert_impulse_count := vert_impulse_count (verts ! ?v) + 1\<rparr>]"
  obtain st' where s: "setup_contact H (ct_collmd ct) i dt collpair st = Inr st'"
    and inv': "setup_inv H verts0 base contacts st'"
    using setup_contact_inv [OF inv ct cp f1 a1] by blast
  have resp: "collision_response H verts (ct_collmd ct) collpair dt 0
      = collision_response H verts0 (ct_collmd ct) collpair dt 0"
    using per [OF a1] len by (intro collision_response_cong) simp_all
  have pin: "vert_pinned H (verts ! ?v) = vert_pinned H (verts0 ! ?v)"
    using per [OF f1] by (simp add: vert_pinned_def)
  have f1': "?v < length verts" using f1 len by simp
  from setup_contact_step [OF f1', of H "ct_collmd ct" i dt data] a1 len
  have "st' = st \<or> fst st' = ?verts' \<and> vert_impulse_count (verts ! ?v) = 0"
    using s st per [OF f1] by auto
  then have mono: "\<forall>v < length verts0. vert_impulse_count (fst st ! v) = 1
                      \<longrightarrow> vert_impulse_count (fst st' ! v) = 1"
    using st len f1' by (auto simp: nth_list_update)
  have live: "vert_impulse_count (fst st' ! ?v) = 1"
    if np: "\<not> vert_pinned H (verts0 ! ?v)"
      and r: "collision_response H verts0 (ct_collmd ct) collpair dt 0 = Inr (True, impulse)"
    for impulse
  proof (cases "0 < vert_impulse_count (verts ! ?v)")
    case True
    then have one: "vert_impulse_count (verts ! ?v) = 1" using per [OF f1] by simp
    have "setup_contact H (ct_collmd ct) i dt collpair (verts, data) = Inr (verts, data)"
      using True f1' by (intro setup_contact_skip) simp_all
    then have "st' = st" using s st by simp
    then show ?thesis using one st by simp
  next
    case False
    then have zero: "vert_impulse_count (verts ! ?v) = 0" using per [OF f1] by simp
    have np': "\<not> vert_pinned H (verts ! ?v)" using np pin by simp
    have r': "collision_response H verts (ct_collmd ct) collpair dt 0 = Inr (True, impulse)"
      using r resp by simp
    have "fst st' = ?verts'"
      using setup_contact_accept [OF f1' np' False r', of i data] s st by auto
    then show ?thesis using f1' zero by simp
  qed
  show ?thesis using s inv' mono live by blast
qed

lemma setup_collisions_loop_live:
  assumes "setup_inv H verts0 base contacts st"
    and "ct \<in> set contacts" and "set collisions \<subseteq> set (ct_collisions ct)"
    and "contacts_in_range contacts (length verts0)"
  shows "\<exists>st'. setup_collisions_loop H (ct_collmd ct) i dt collisions st = Inr st'
               \<and> setup_inv H verts0 base contacts st'
               \<and> (\<forall>v < length verts0. vert_impulse_count (fst st ! v) = 1
                      \<longrightarrow> vert_impulse_count (fst st' ! v) = 1)
               \<and> (\<forall>collpair \<in> set collisions. \<forall>impulse.
                      \<not> vert_pinned H (verts0 ! cp_face1 collpair)
                      \<and> collision_response H verts0 (ct_collmd ct) collpair dt 0
                          = Inr (True, impulse)
                      \<longrightarrow> vert_impulse_count (fst st' ! cp_face1 collpair) = 1)"
  using assms
proof (induction collisions arbitrary: st)
  case Nil
  then show ?case by simp
next
  case (Cons collpair rest)
  have cp: "collpair \<in> set (ct_collisions ct)" using Cons.prems(3) by simp
  then have rng: "cp_face1 collpair < length verts0" "cp_ap1 collpair < length verts0"
    using Cons.prems(2,4) by (auto simp: contacts_in_range_def)
  have rng': "\<forall>c \<in> set rest. cp_face1 c < length verts0"
    using Cons.prems(2,3,4) by (auto simp: contacts_in_range_def)
  obtain st1 where s1: "setup_contact H (ct_collmd ct) i dt collpair st = Inr st1"
    and i1: "setup_inv H verts0 base contacts st1"
    and m1: "\<forall>v < length verts0. vert_impulse_count (fst st ! v) = 1
                      \<longrightarrow> vert_impulse_count (fst st1 ! v) = 1"
    and l1: "\<forall>impulse. \<not> vert_pinned H (verts0 ! cp_face1 collpair)
                      \<and> collision_response H verts0 (ct_collmd ct) collpair dt 0
                          = Inr (True, impulse)
                      \<longrightarrow> vert_impulse_count (fst st1 ! cp_face1 collpair) = 1"
    using setup_contact_live [OF Cons.prems(1,2) cp rng, of i dt] by blast
  have sub: "set rest \<subseteq> set (ct_collisions ct)" using Cons.prems(3) by simp
  obtain st2 where s2: "setup_collisions_loop H (ct_collmd ct) i dt rest st1 = Inr st2"
    and i2: "setup_inv H verts0 base contacts st2"
    and m2: "\<forall>v < length verts0. vert_impulse_count (fst st1 ! v) = 1
                      \<longrightarrow> vert_impulse_count (fst st2 ! v) = 1"
    and l2: "\<forall>collpair \<in> set rest. \<forall>impulse.
                      \<not> vert_pinned H (verts0 ! cp_face1 collpair)
                      \<and> collision_response H verts0 (ct_collmd ct) collpair dt 0
                          = Inr (True, impulse)
                      \<longrightarrow> vert_impulse_count (fst st2 ! cp_face1 collpair) = 1"
    using Cons.IH [OF i1 Cons.prems(2) sub Cons.prems(4)] by blast
  have e: "setup_collisions_loop H (ct_collmd ct) i dt (collpair # rest) st = Inr st2"
    using s1 s2 by simp
  have m: "\<forall>v < length verts0. vert_impulse_count (fst st ! v) = 1
                      \<longrightarrow> vert_impulse_count (fst st2 ! v) = 1"
    using m1 m2 by blast
  have l: "\<forall>c \<in> set (collpair # rest). \<forall>impulse.
                      \<not> vert_pinned H (verts0 ! cp_face1 c)
                      \<and> collision_response H verts0 (ct_collmd ct) c dt 0
                          = Inr (True, impulse)
                      \<longrightarrow> vert_impulse_count (fst st2 ! cp_face1 c) = 1"
    using l1 l2 m2 rng(1) by auto
  show ?case using e i2 m l by blast
qed

lemma setup_colliders_loop_live:
  assumes "setup_inv H verts0 base contacts st"
    and "set cts \<subseteq> set contacts"
    and "contacts_in_range contacts (length verts0)"
  shows "\<exists>st'. setup_colliders_loop H dt cts i st = Inr st'
               \<and> setup_inv H verts0 base contacts st'
               \<and> (\<forall>v < length verts0. vert_impulse_count (fst st ! v) = 1
                      \<longrightarrow> vert_impulse_count (fst st' ! v) = 1)
               \<and> (\<forall>ct \<in> set cts. \<forall>collpair \<in> set (ct_collisions ct). \<forall>impulse.
                      \<not> vert_pinned H (verts0 ! cp_face1 collpair)
                      \<and> collision_response H verts0 (ct_collmd ct) collpair dt 0
                          = Inr (True, impulse)
                      \<longrightarrow> vert_impulse_count (fst st' ! cp_face1 collpair) = 1)"
  using assms
proof (induction cts arbitrary: st i)
  case Nil
  then show ?case by simp
next
  case (Cons ct rest)
  have ct: "ct \<in> set contacts" using Cons.prems(2) by simp
  have rng: "\<forall>c \<in> set (ct_collisions ct). cp_face1 c < length verts0"
    using ct Cons.prems(3) by (auto simp: contacts_in_range_def)
  obtain st1 where s1: "setup_collisions_loop H (ct_collmd ct) i dt (ct_collisions ct) st = Inr st1"
    and i1: "setup_inv H verts0 base contacts st1"
    and m1: "\<forall>v < length verts0. vert_impulse_count (fst st ! v) = 1
                      \<longrightarrow> vert_impulse_count (fst st1 ! v) = 1"
    and l1: "\<forall>collpair \<in> set (ct_collisions ct). \<forall>impulse.
                      \<not> vert_pinned H (verts0 ! cp_face1 collpair)
                      \<and> collision_response H verts0 (ct_collmd ct) collpair dt 0
                          = Inr (True, impulse)
                      \<longrightarrow> vert_impulse_count (fst st1 ! cp_face1 collpair) = 1"
    using setup_collisions_loop_live [OF Cons.prems(1) ct subset_refl Cons.prems(3), of i dt]
    by blast
  have sub: "set rest \<subseteq> set contacts" using Cons.prems(2) by simp
  obtain st2 where s2: "setup_colliders_loop H dt rest (Suc i) st1 = Inr st2"
    and i2: "setup_inv H verts0 base contacts st2"
    and m2: "\<forall>v < length verts0. vert_impulse_count (fst st1 ! v) = 1
                      \<longrightarrow> vert_impulse_count (fst st2 ! v) = 1"
    and l2: "\<forall>ct \<in> set rest. \<forall>collpair \<in> set (ct_collisions ct). \<forall>impulse.
                      \<not> vert_pinned H (verts0 ! cp_face1 collpair)
                      \<and> collision_response H verts0 (ct_collmd ct) collpair dt 0
                          = Inr (True, impulse)
                      \<longrightarrow> vert_impulse_count (fst st2 ! cp_face1 collpair) = 1"
    using Cons.IH [OF i1 sub Cons.prems(3), of "Suc i"] by blast
  have e: "setup_colliders_loop H dt (ct # rest) i st = Inr st2"
    using s1 s2 by simp
  have m: "\<forall>v < length verts0. vert_impulse_count (fst st ! v) = 1
                      \<longrightarrow> vert_impulse_count (fst st2 ! v) = 1"
    using m1 m2 by blast
  have l: "\<forall>c \<in> set (ct # rest). \<forall>collpair \<in> set (ct_collisions c). \<forall>impulse.
                      \<not> vert_pinned H (verts0 ! cp_face1 collpair)
                      \<and> collision_response H verts0 (ct_collmd c) collpair dt 0
                          = Inr (True, impulse)
                      \<longrightarrow> vert_impulse_count (fst st2 ! cp_face1 collpair) = 1"
    using l1 l2 m2 rng by auto
  show ?case using e i2 m l by blast
qed

lemma cloth_setup_constraints_live:
  assumes "contacts_in_range contacts (length verts)"
  shows "\<exists>st'. cloth_setup_constraints H verts data contacts dt = Inr st'
               \<and> setup_inv H verts (pinned_constraints H verts) contacts st'
               \<and> (\<forall>ct \<in> set contacts. \<forall>collpair \<in> set (ct_collisions ct). \<forall>impulse.
                      \<not> vert_pinned H (verts ! cp_face1 collpair)
                      \<and> collision_response H verts (ct_collmd ct) collpair dt 0
                          = Inr (True, impulse)
                      \<longrightarrow> vert_impulse_count (fst st' ! cp_face1 collpair) = 1)"
proof -
  let ?st = "setup_pinned_loop H verts 0 (BPH_mass_spring_clear_constraints data)"
  have "setup_inv H verts (pinned_constraints H verts) contacts ?st"
    by (simp add: setup_inv_def setup_pinned_loop_eq pinned_constraints_enumerate
          BPH_mass_spring_clear_constraints_def comp_def)
  from setup_colliders_loop_live [OF this subset_refl assms, of dt 0]
  show ?thesis unfolding cloth_setup_constraints_def by blast
qed


text \<open>
  Claim C3 (the source departs from it). The claim asks that a vertex receives at most
  one collision impulse in one constraint set-up, and that a pinned vertex receives its
  zero-degrees-of-freedom constraint instead. In the example vertex 0 is pinned, and the
  only collider, number 0, has a contact on each of the free vertices 1 and 2. Both
  contacts are accepted, and the vertices 1 and 2 get the impulse count 1 each. Both
  constraints are added at index 0, the number of the collider: the pinned vertex 0
  holds its own constraint and two collision impulses, and the vertices 1 and 2 hold
  none.
\<close>

theorem two_impulses_at_collider_index:
  "map cp_face1 (ct_collisions (example_contacts_two ! 0)) = [1, 2]
   \<and> map (vert_pinned example_consts) example_verts = [True, False, False]
   \<and> map_sum id (\<lambda>st. (map vert_impulse_count (fst st), id_constraints (snd st)))
       (cloth_setup_constraints example_consts example_verts
          (BPH_mass_spring_solver_create 3 0) example_contacts_two (1 / 5))
     = Inr ([0, 1, 1],
            [NDOF0 0 zero_v3, NDOF2 0 (0, 0, 1) (0, 0, 3 / 2), NDOF2 0 (0, 0, 1) (0, 0, 3 / 2)])"
proof -
  have "map cp_face1 (ct_collisions (example_contacts_two ! 0)) = [1, 2]"
    by (simp add: example_contacts_two_def example_defs)
  moreover have "map (vert_pinned example_consts) example_verts = [True, False, False]"
    by (simp add: vert_pinned_def example_defs)
  ultimately show ?thesis using example_setup_two by simp
qed

text \<open>
  Claim C2 (the source departs from it). The claim asks for the contact constraint to
  be added for the contacted vertex. In the example the only collider, number 0, has
  its first contact on vertex 1, which is free and moves towards the collider; the
  contact is accepted, and the constraint is added at index 0, the number of the
  collider (and here a pinned vertex), not at index 1.
\<close>

theorem contact_constraint_at_collider_index:
  "cp_face1 (ct_collisions (example_contacts ! 0) ! 0) = 1
   \<and> map_sum id (\<lambda>st. id_constraints (snd st))
       (cloth_setup_constraints example_consts example_verts
          (BPH_mass_spring_solver_create 3 0) example_contacts (1 / 5))
     = Inr [NDOF0 0 zero_v3, NDOF2 0 (0, 0, 1) (0, 0, 3 / 2)]"
proof -
  have "cp_face1 (ct_collisions (example_contacts ! 0) ! 0) = 1"
    by (simp add: example_contacts_def example_defs)
  moreover have "map_sum id (\<lambda>st. id_constraints (snd st))
       (cloth_setup_constraints example_consts example_verts
          (BPH_mass_spring_solver_create 3 0) example_contacts (1 / 5))
     = Inr [NDOF0 0 zero_v3, NDOF2 0 (0, 0, 1) (0, 0, 3 / 2)]"
    using example_setup
    by (cases "cloth_setup_constraints example_consts example_verts
          (BPH_mass_spring_solver_create 3 0) example_contacts (1 / 5)") simp_all
  ultimately show ?thesis by simp
qed

text \<open>
  Claim C9. \<open>cloth_setup_constraints\<close> passes the restitution 0 to
  \<open>collision_response\<close>. So, for contacts that name vertices of the array and a
  non-zero time step, \<open>cloth_setup_constraints\<close> returns, and in the state returned the
  constraints are those of the pinned vertices followed by contact constraints only,
  as many as the impulse counts add up to, each with the contact normal scaled by the
  negated normal component of the new relative velocity as its impulse; and every
  contact on a free vertex to which \<open>collision_response\<close> answers true with
  restitution 0 leaves the impulse count 1 on its vertex, so such a contact is not
  lost. For every contact the bounce term is 0 and the clamped repulsion term is 0, and
  an impulse that \<open>collision_response\<close> returns is of the form above, whichever branch
  on the penetration depth is taken. The body of the contact loop: on a free vertex
  with no impulse yet and with the answer true it raises the impulse count of the
  vertex by one and adds exactly the constraint with this impulse; with the answer
  false it leaves the state as it is.
\<close>

theorem zero_restitution_impulses:
  assumes "contacts_in_range contacts (length verts)" and "dt \<noteq> 0"
  shows "(\<exists>verts' data' cs.
            cloth_setup_constraints H verts data contacts dt = Inr (verts', data')
            \<and> id_constraints data' = pinned_constraints H verts @ cs
            \<and> (\<forall>c \<in> set cs. is_NDOF2 c \<and> zero_restitution_constraint verts contacts c)
            \<and> int (length cs) = sum_list (map vert_impulse_count verts')
            \<and> (\<forall>c \<in> set (id_constraints data').
                  is_NDOF2 c \<longrightarrow> zero_restitution_constraint verts contacts c)
            \<and> (\<forall>ct \<in> set contacts. \<forall>collpair \<in> set (ct_collisions ct). \<forall>impulse.
                  \<not> vert_pinned H (verts ! cp_face1 collpair)
                  \<and> collision_response H verts (ct_collmd ct) collpair dt 0 = Inr (True, impulse)
                  \<longrightarrow> vert_impulse_count (verts' ! cp_face1 collpair) = 1))
         \<and> (\<forall>ct \<in> set contacts. \<forall>collpair \<in> set (ct_collisions ct).
              response_bounce (contact_v_nor_old verts (ct_collmd ct) collpair) 0 = 0
              \<and> response_repulse (contact_margin_distance (ct_collmd ct) collpair) dt
                    (response_bounce (contact_v_nor_old verts (ct_collmd ct) collpair) 0) = 0
              \<and> (\<forall>impulse.
                    collision_response H verts (ct_collmd ct) collpair dt 0 = Inr (True, impulse)
                    \<longrightarrow> impulse = mul_v3_v3fl (cp_normal collpair)
                                    (- contact_v_nor_new verts (ct_collmd ct) collpair)))
         \<and> (\<forall>collmd i collpair vs d.
              cp_face1 collpair < length vs \<and> cp_ap1 collpair < length vs
              \<longrightarrow> setup_contact H collmd i dt collpair (vs, d) = Inr (vs, d)
                  \<or> (\<exists>vs'. setup_contact H collmd i dt collpair (vs, d) =
                        Inr (vs', d\<lparr>id_constraints :=
                                      id_constraints d
                                        @ [NDOF2 i (cp_normal collpair)
                                             (mul_v3_v3fl (cp_normal collpair)
                                                (- contact_v_nor_new vs collmd collpair))]\<rparr>)))
         \<and> (\<forall>collmd i collpair vs d impulse.
              cp_face1 collpair < length vs
              \<and> \<not> vert_pinned H (vs ! cp_face1 collpair)
              \<and> \<not> 0 < vert_impulse_count (vs ! cp_face1 collpair)
              \<and> collision_response H vs collmd collpair dt 0 = Inr (True, impulse)
              \<longrightarrow> setup_contact H collmd i dt collpair (vs, d) =
                    Inr (vs[cp_face1 collpair :=
                              (vs ! cp_face1 collpair)
                                \<lparr>vert_impulse_count :=
                                   vert_impulse_count (vs ! cp_face1 collpair) + 1\<rparr>],
                         d\<lparr>id_constraints :=
                             id_constraints d
                               @ [NDOF2 i (cp_normal collpair)
                                    (mul_v3_v3fl (cp_normal collpair)
                                       (- contact_v_nor_new vs collmd collpair))]\<rparr>))
         \<and> (\<forall>collmd i collpair vs d impulse.
              cp_face1 collpair < length vs
              \<and> collision_response H vs collmd collpair dt 0 = Inr (False, impulse)
              \<longrightarrow> setup_contact H collmd i dt collpair (vs, d) = Inr (vs, d))"
proof (intro conjI ballI allI impI)
  obtain verts' data' where
    r: "cloth_setup_constraints H verts data contacts dt = Inr (verts', data')"
    and inv: "setup_inv H verts (pinned_constraints H verts) contacts (verts', data')"
    and live: "\<forall>ct \<in> set contacts. \<forall>collpair \<in> set (ct_collisions ct). \<forall>impulse.
                  \<not> vert_pinned H (verts ! cp_face1 collpair)
                  \<and> collision_response H verts (ct_collmd ct) collpair dt 0 = Inr (True, impulse)
                  \<longrightarrow> vert_impulse_count (verts' ! cp_face1 collpair) = 1"
    using cloth_setup_constraints_live [OF assms(1), of H data dt]
    by (metis surj_pair fst_conv)
  obtain cs where cs: "id_constraints data' = pinned_constraints H verts @ cs"
    and z: "\<forall>c \<in> set cs. is_NDOF2 c \<and> zero_restitution_constraint verts contacts c"
    and n: "int (length cs) = sum_list (map vert_impulse_count verts')"
    using inv by (auto simp: setup_inv_def)
  have a: "\<forall>c \<in> set (id_constraints data').
                  is_NDOF2 c \<longrightarrow> zero_restitution_constraint verts contacts c"
    using cs z pinned_constraints_not_NDOF2 by auto
  from r cs z n a live
  show "\<exists>verts' data' cs.
            cloth_setup_constraints H verts data contacts dt = Inr (verts', data')
            \<and> id_constraints data' = pinned_constraints H verts @ cs
            \<and> (\<forall>c \<in> set cs. is_NDOF2 c \<and> zero_restitution_constraint verts contacts c)
            \<and> int (length cs) = sum_list (map vert_impulse_count verts')
            \<and> (\<forall>c \<in> set (id_constraints data').
                  is_NDOF2 c \<longrightarrow> zero_restitution_constraint verts contacts c)
            \<and> (\<forall>ct \<in> set contacts. \<forall>collpair \<in> set (ct_collisions ct). \<forall>impulse.
                  \<not> vert_pinned H (verts ! cp_face1 collpair)
                  \<and> collision_response H verts (ct_collmd ct) collpair dt 0 = Inr (True, impulse)
                  \<longrightarrow> vert_impulse_count (verts' ! cp_face1 collpair) = 1)"
    by - (rule exI [of _ verts'], rule exI [of _ data'], rule exI [of _ cs],
          (intro conjI; assumption))
next
  fix ct collpair
  show "response_bounce (contact_v_nor_old verts (ct_collmd ct) collpair) 0 = 0"
    by (simp add: response_bounce_def)
  show "response_repulse (contact_margin_distance (ct_collmd ct) collpair) dt
          (response_bounce (contact_v_nor_old verts (ct_collmd ct) collpair) 0) = 0"
    by (simp add: response_bounce_def response_repulse_def CLAMP_def)
  fix impulse
  assume "collision_response H verts (ct_collmd ct) collpair dt 0 = Inr (True, impulse)"
  then show "impulse = mul_v3_v3fl (cp_normal collpair)
                                    (- contact_v_nor_new verts (ct_collmd ct) collpair)"
    by (rule response_zero_restitution)
next
  fix collmd :: CollisionModifierData and i :: nat and collpair :: CollPair
    and vs :: "ClothVertex list" and d :: Implicit_Data
  assume a: "cp_face1 collpair < length vs \<and> cp_ap1 collpair < length vs"
  from setup_contact_step [of collpair vs H collmd i dt d] a
  show "setup_contact H collmd i dt collpair (vs, d) = Inr (vs, d)
                  \<or> (\<exists>vs'. setup_contact H collmd i dt collpair (vs, d) =
                        Inr (vs', d\<lparr>id_constraints :=
                                      id_constraints d
                                        @ [NDOF2 i (cp_normal collpair)
                                             (mul_v3_v3fl (cp_normal collpair)
                                                (- contact_v_nor_new vs collmd collpair))]\<rparr>))"
    using response_zero_restitution by blast
next
  fix collmd :: CollisionModifierData and i :: nat and collpair :: CollPair
    and vs :: "ClothVertex list" and d :: Implicit_Data and impulse :: float3
  assume a: "cp_face1 collpair < length vs
              \<and> \<not> vert_pinned H (vs ! cp_face1 collpair)
              \<and> \<not> 0 < vert_impulse_count (vs ! cp_face1 collpair)
              \<and> collision_response H vs collmd collpair dt 0 = Inr (True, impulse)"
  then have r: "collision_response H vs collmd collpair dt 0 = Inr (True, impulse)" by simp
  show "setup_contact H collmd i dt collpair (vs, d) =
                    Inr (vs[cp_face1 collpair :=
                              (vs ! cp_face1 collpair)
                                \<lparr>vert_impulse_count :=
                                   vert_impulse_count (vs ! cp_face1 collpair) + 1\<rparr>],
                         d\<lparr>id_constraints :=
                             id_constraints d
                               @ [NDOF2 i (cp_normal collpair)
                                    (mul_v3_v3fl (cp_normal collpair)
                                       (- contact_v_nor_new vs collmd collpair))]\<rparr>)"
    unfolding response_zero_restitution [OF r, symmetric]
    using a by (intro setup_contact_accept) simp_all
next
  fix collmd :: CollisionModifierData and i :: nat and collpair :: CollPair
    and vs :: "ClothVertex list" and d :: Implicit_Data and impulse :: float3
  assume "cp_face1 collpair < length vs
              \<and> collision_response H vs collmd collpair dt 0 = Inr (False, impulse)"
  then show "setup_contact H collmd i dt collpair (vs, d) = Inr (vs, d)"
    using setup_contact_reject by blast
qed

lemma example_reset_response:
  "collision_response example_consts
     (map (\<lambda>vert. vert\<lparr>vert_impulse_count := 0\<rparr>) example_verts) example_collmd
     example_collpair (1 / 5) 0
   = Inr (True, (0, 0, 3 / 2))"
  using example_response
    collision_response_cong [of "map (\<lambda>vert. vert\<lparr>vert_impulse_count := 0\<rparr>) example_verts"
      example_verts example_collpair example_consts example_collmd "1 / 5" 0]
  by (simp add: example_defs)

theorem zero_restitution_impulses_witness:
  "contacts_in_range example_contacts (length example_verts) \<and> (1::real) / 5 \<noteq> 0
   \<and> example_contacts ! 0 \<in> set example_contacts
   \<and> example_collpair \<in> set (ct_collisions (example_contacts ! 0))
   \<and> cp_face1 example_collpair = 1
   \<and> \<not> vert_pinned example_consts (example_verts ! 1)
   \<and> collision_response example_consts example_verts (ct_collmd (example_contacts ! 0))
         example_collpair (1 / 5) 0 = Inr (True, (0, 0, 3 / 2))
   \<and> (0, 0, 3 / 2) = mul_v3_v3fl (cp_normal example_collpair)
         (- contact_v_nor_new example_verts (ct_collmd (example_contacts ! 0)) example_collpair)
   \<and> (\<exists>verts' data'.
         cloth_setup_constraints example_consts example_verts
             (BPH_mass_spring_solver_create 3 0) example_contacts (1 / 5) = Inr (verts', data')
         \<and> vert_impulse_count (verts' ! 1) = 1
         \<and> map vert_impulse_count verts' = [0, 1, 0]
         \<and> id_constraints data' = [NDOF0 0 zero_v3, NDOF2 0 (0, 0, 1) (0, 0, 3 / 2)])
   \<and> zero_restitution_constraint example_verts example_contacts
         (NDOF2 0 (0, 0, 1) (0, 0, 3 / 2))
   \<and> cp_face1 example_collpair
         < length (map (\<lambda>vert. vert\<lparr>vert_impulse_count := 0\<rparr>) example_verts)
   \<and> \<not> vert_pinned example_consts
           (map (\<lambda>vert. vert\<lparr>vert_impulse_count := 0\<rparr>) example_verts
              ! cp_face1 example_collpair)
   \<and> \<not> 0 < vert_impulse_count
               (map (\<lambda>vert. vert\<lparr>vert_impulse_count := 0\<rparr>) example_verts
                  ! cp_face1 example_collpair)
   \<and> collision_response example_consts
         (map (\<lambda>vert. vert\<lparr>vert_impulse_count := 0\<rparr>) example_verts) example_collmd
         example_collpair (1 / 5) 0
       = Inr (True, (0, 0, 3 / 2))
   \<and> setup_contact example_consts example_collmd 0 (1 / 5) example_collpair
         (map (\<lambda>vert. vert\<lparr>vert_impulse_count := 0\<rparr>) example_verts,
          BPH_mass_spring_solver_create 3 0)
       = Inr ((map (\<lambda>vert. vert\<lparr>vert_impulse_count := 0\<rparr>) example_verts)
                [1 := example_vertex\<lparr>vert_impulse_count := 1\<rparr>],
              (BPH_mass_spring_solver_create 3 0)
                \<lparr>id_constraints := [NDOF2 0 (0, 0, 1) (0, 0, 3 / 2)]\<rparr>)
   \<and> cp_face1 example_collpair_future < length example_verts
   \<and> collision_response example_consts example_verts example_collmd example_collpair_future
         (1 / 5) 0
       = Inr (False, zero_v3)
   \<and> setup_contact example_consts example_collmd 0 (1 / 5) example_collpair_future
         (example_verts, BPH_mass_spring_solver_create 3 0)
       = Inr (example_verts, BPH_mass_spring_solver_create 3 0)"
proof -
  let ?reset = "map (\<lambda>vert. vert\<lparr>vert_impulse_count := 0\<rparr>) example_verts"
  have d: "(1::real) / 5 \<noteq> 0" by simp
  have ct: "example_contacts ! 0 \<in> set example_contacts"
    and cp: "example_collpair \<in> set (ct_collisions (example_contacts ! 0))"
    and md: "ct_collmd (example_contacts ! 0) = example_collmd"
    by (simp_all add: example_contacts_def)
  have f: "cp_face1 example_collpair = 1" by (simp add: example_defs)
  have np: "\<not> vert_pinned example_consts (example_verts ! 1)"
    by (simp add: vert_pinned_def example_defs)
  have resp: "collision_response example_consts example_verts (ct_collmd (example_contacts ! 0))
         example_collpair (1 / 5) 0 = Inr (True, (0, 0, 3 / 2))"
    using example_response md by simp
  note z = zero_restitution_impulses [OF example_contacts_in_range d,
      of example_consts "BPH_mass_spring_solver_create 3 0"]
  from z [THEN conjunct2, THEN conjunct1] ct cp resp
  have imp: "(0, 0, 3 / 2) = mul_v3_v3fl (cp_normal example_collpair)
         (- contact_v_nor_new example_verts (ct_collmd (example_contacts ! 0)) example_collpair)"
    by blast
  from z [THEN conjunct1] obtain verts' data' where
    r: "cloth_setup_constraints example_consts example_verts
          (BPH_mass_spring_solver_create 3 0) example_contacts (1 / 5) = Inr (verts', data')"
    and a: "\<forall>c \<in> set (id_constraints data').
              is_NDOF2 c \<longrightarrow> zero_restitution_constraint example_verts example_contacts c"
    and live: "\<forall>ct \<in> set example_contacts. \<forall>collpair \<in> set (ct_collisions ct). \<forall>impulse.
                  \<not> vert_pinned example_consts (example_verts ! cp_face1 collpair)
                  \<and> collision_response example_consts example_verts (ct_collmd ct) collpair
                        (1 / 5) 0 = Inr (True, impulse)
                  \<longrightarrow> vert_impulse_count (verts' ! cp_face1 collpair) = 1"
    by blast
  have one: "vert_impulse_count (verts' ! 1) = 1"
    using live ct cp np resp f by metis
  have m: "map vert_impulse_count verts' = [0, 1, 0]"
    and cs: "id_constraints data' = [NDOF0 0 zero_v3, NDOF2 0 (0, 0, 1) (0, 0, 3 / 2)]"
    using example_setup r by simp_all
  from a cs have zr: "zero_restitution_constraint example_verts example_contacts
         (NDOF2 0 (0, 0, 1) (0, 0, 3 / 2))"
    by simp
  from r one m cs have ex: "\<exists>verts' data'.
         cloth_setup_constraints example_consts example_verts
             (BPH_mass_spring_solver_create 3 0) example_contacts (1 / 5) = Inr (verts', data')
         \<and> vert_impulse_count (verts' ! 1) = 1
         \<and> map vert_impulse_count verts' = [0, 1, 0]
         \<and> id_constraints data' = [NDOF0 0 zero_v3, NDOF2 0 (0, 0, 1) (0, 0, 3 / 2)]"
    by - (rule exI [of _ verts'], rule exI [of _ data'], (intro conjI; assumption))
  have pre: "cp_face1 example_collpair < length ?reset
      \<and> \<not> vert_pinned example_consts (?reset ! cp_face1 example_collpair)
      \<and> \<not> 0 < vert_impulse_count (?reset ! cp_face1 example_collpair)
      \<and> collision_response example_consts ?reset example_collmd example_collpair (1 / 5) 0
          = Inr (True, (0, 0, 3 / 2))"
    using example_reset_response by (simp add: vert_pinned_def example_defs)
  have acc: "setup_contact example_consts example_collmd 0 (1 / 5) example_collpair
         (?reset, BPH_mass_spring_solver_create 3 0)
       = Inr (?reset[cp_face1 example_collpair :=
                (?reset ! cp_face1 example_collpair)
                  \<lparr>vert_impulse_count :=
                     vert_impulse_count (?reset ! cp_face1 example_collpair) + 1\<rparr>],
              (BPH_mass_spring_solver_create 3 0)
                \<lparr>id_constraints :=
                    id_constraints (BPH_mass_spring_solver_create 3 0)
                      @ [NDOF2 0 (cp_normal example_collpair)
                           (mul_v3_v3fl (cp_normal example_collpair)
                              (- contact_v_nor_new ?reset example_collmd example_collpair))]\<rparr>)"
    using z [THEN conjunct2, THEN conjunct2, THEN conjunct2, THEN conjunct1] pre by blast
  have acc': "setup_contact example_consts example_collmd 0 (1 / 5) example_collpair
         (?reset, BPH_mass_spring_solver_create 3 0)
       = Inr (?reset[1 := example_vertex\<lparr>vert_impulse_count := 1\<rparr>],
              (BPH_mass_spring_solver_create 3 0)
                \<lparr>id_constraints := [NDOF2 0 (0, 0, 1) (0, 0, 3 / 2)]\<rparr>)"
    unfolding acc
    by (simp add: example_defs BPH_mass_spring_solver_create_def contact_v_nor_new_def)
  have pre1: "cp_face1 example_collpair < length ?reset"
    and pre2: "\<not> vert_pinned example_consts (?reset ! cp_face1 example_collpair)"
    and pre3: "\<not> 0 < vert_impulse_count (?reset ! cp_face1 example_collpair)"
    and pre4: "collision_response example_consts ?reset example_collmd example_collpair (1 / 5) 0
          = Inr (True, (0, 0, 3 / 2))"
    using pre by (simp_all only: conj_imp_eq_imp_imp simp_thms)
  have fut: "cp_face1 example_collpair_future < length example_verts"
    by (simp add: example_defs)
  have rej: "setup_contact example_consts example_collmd 0 (1 / 5) example_collpair_future
         (example_verts, BPH_mass_spring_solver_create 3 0)
       = Inr (example_verts, BPH_mass_spring_solver_create 3 0)"
    using z [THEN conjunct2, THEN conjunct2, THEN conjunct2, THEN conjunct2]
      fut example_response_future
    by blast
  from example_contacts_in_range d ct cp f np resp imp ex zr pre1 pre2 pre3 pre4 acc'
    fut example_response_future rej
  show ?thesis by - (intro conjI; assumption)
qed

subsection \<open>Aggregation of the solver results of a frame\<close>

lemma Min_insert_min:
  fixes a b :: "'a::linorder"
  assumes "finite A"
  shows "Min (insert (min a b) A) = Min (insert a (insert b A))"
  using assms by (cases "A = {}") (simp_all add: min.assoc)

lemma Max_insert_max:
  fixes a b :: "'a::linorder"
  assumes "finite A"
  shows "Max (insert (max a b) A) = Max (insert a (insert b A))"
  using assms by (cases "A = {}") (simp_all add: max.assoc)

lemma min_ff_min: "min_ff a b = min a b"
  by (simp add: min_ff_def min_def)

lemma max_ff_max: "max_ff a b = max a b"
  by (simp add: max_ff_def max_def)

lemma min_ii_min: "min_ii a b = min a b"
  by (simp add: min_ii_def min_def)

lemma max_ii_max: "max_ii a b = max a b"
  by (simp add: max_ii_def max_def)

lemma cloth_record_result_started:
  assumes "sres_status sres \<noteq> 0" and "res_status result = BPH_SOLVER_SUCCESS H"
  shows "cloth_record_result H sres result steps =
     sres\<lparr>sres_min_error := min (sres_min_error sres) (res_error result),
          sres_max_error := max (sres_max_error sres) (res_error result),
          sres_avg_error := sres_avg_error sres + res_error result / of_int steps,
          sres_min_iterations := min (sres_min_iterations sres) (res_iterations result),
          sres_max_iterations := max (sres_max_iterations sres) (res_iterations result),
          sres_avg_iterations :=
            sres_avg_iterations sres + of_int (res_iterations result) / of_int steps,
          sres_status := sres_status sres OR res_status result\<rparr>"
  using assms
  by (simp add: cloth_record_result_def Let_def min_ff_min max_ff_max min_ii_min max_ii_max)

lemma cloth_record_result_first:
  assumes "sres_status sres = 0" and "res_status result = BPH_SOLVER_SUCCESS H"
  shows "cloth_record_result H sres result steps =
     sres\<lparr>sres_min_error := res_error result,
          sres_max_error := res_error result,
          sres_avg_error := sres_avg_error sres + res_error result / of_int steps,
          sres_min_iterations := res_iterations result,
          sres_max_iterations := res_iterations result,
          sres_avg_iterations :=
            sres_avg_iterations sres + of_int (res_iterations result) / of_int steps,
          sres_status := sres_status sres OR res_status result\<rparr>"
  using assms
  by (simp add: cloth_record_result_def Let_def)

lemma cloth_record_results_status:
  "sres_status (cloth_record_results H sres results steps)
     = foldl (OR) (sres_status sres) (map res_status results)"
  by (induction results arbitrary: sres) (simp_all add: cloth_record_result_def Let_def)

lemma cloth_record_results_started:
  assumes "sres_status sres \<noteq> 0" and "\<forall>r \<in> set results. res_status r = BPH_SOLVER_SUCCESS H"
  shows "sres_min_error (cloth_record_results H sres results steps)
           = Min (insert (sres_min_error sres) (set (map res_error results)))
       \<and> sres_max_error (cloth_record_results H sres results steps)
           = Max (insert (sres_max_error sres) (set (map res_error results)))
       \<and> sres_avg_error (cloth_record_results H sres results steps)
           = sres_avg_error sres + sum_list (map res_error results) / of_int steps
       \<and> sres_min_iterations (cloth_record_results H sres results steps)
           = Min (insert (sres_min_iterations sres) (set (map res_iterations results)))
       \<and> sres_max_iterations (cloth_record_results H sres results steps)
           = Max (insert (sres_max_iterations sres) (set (map res_iterations results)))
       \<and> sres_avg_iterations (cloth_record_results H sres results steps)
           = sres_avg_iterations sres
               + of_int (sum_list (map res_iterations results)) / of_int steps"
  using assms
proof (induction results arbitrary: sres)
  case Nil
  show ?case by simp
next
  case (Cons r results)
  have s: "res_status r = BPH_SOLVER_SUCCESS H" using Cons.prems(2) by simp
  let ?s1 = "cloth_record_result H sres r steps"
  have e: "?s1 = sres\<lparr>sres_min_error := min (sres_min_error sres) (res_error r),
          sres_max_error := max (sres_max_error sres) (res_error r),
          sres_avg_error := sres_avg_error sres + res_error r / of_int steps,
          sres_min_iterations := min (sres_min_iterations sres) (res_iterations r),
          sres_max_iterations := max (sres_max_iterations sres) (res_iterations r),
          sres_avg_iterations :=
            sres_avg_iterations sres + of_int (res_iterations r) / of_int steps,
          sres_status := sres_status sres OR res_status r\<rparr>"
    using cloth_record_result_started [OF Cons.prems(1) s] .
  have st: "sres_status ?s1 \<noteq> 0"
    using Cons.prems(1) by (simp add: e or_eq_0_iff)
  have rest: "\<forall>r \<in> set results. res_status r = BPH_SOLVER_SUCCESS H"
    using Cons.prems(2) by simp
  note ih = Cons.IH [OF st rest]
  show ?case
    unfolding cloth_record_results.simps
    using ih
    by (simp add: e Min_insert_min Max_insert_max add_divide_distrib)
qed

text \<open>
  Claim C7. Let the result record be cleared and then the result of each substep of
  the frame be recorded with \<open>steps\<close> equal to the number of substeps, every substep
  reporting success (a non-zero status flag). Then the average error and the average
  iteration count are the arithmetic means over the substeps, the minimum and maximum
  error and iteration count are the extremes over the substeps, and the status is the
  bitwise OR of the statuses of the substeps.
\<close>

theorem frame_result_aggregation:
  assumes "BPH_SOLVER_SUCCESS H \<noteq> 0" and "results \<noteq> []"
    and "\<forall>r \<in> set results. res_status r = BPH_SOLVER_SUCCESS H"
    and "steps = int (length results)"
  shows "sres_avg_error (cloth_record_results H (cloth_clear_result sres) results steps)
           = sum_list (map res_error results) / real (length results)
       \<and> sres_avg_iterations (cloth_record_results H (cloth_clear_result sres) results steps)
           = real_of_int (sum_list (map res_iterations results)) / real (length results)
       \<and> sres_min_error (cloth_record_results H (cloth_clear_result sres) results steps)
           = Min (set (map res_error results))
       \<and> sres_max_error (cloth_record_results H (cloth_clear_result sres) results steps)
           = Max (set (map res_error results))
       \<and> sres_min_iterations (cloth_record_results H (cloth_clear_result sres) results steps)
           = Min (set (map res_iterations results))
       \<and> sres_max_iterations (cloth_record_results H (cloth_clear_result sres) results steps)
           = Max (set (map res_iterations results))
       \<and> sres_status (cloth_record_results H (cloth_clear_result sres) results steps)
           = foldl (OR) 0 (map res_status results)"
proof -
  obtain r rs where rs: "results = r # rs"
    using assms(2) by (cases results) simp_all
  have s: "res_status r = BPH_SOLVER_SUCCESS H" using assms(3) rs by simp
  let ?c = "cloth_clear_result sres"
  let ?s1 = "cloth_record_result H ?c r steps"
  have c0: "sres_status ?c = 0" by (simp add: cloth_clear_result_def)
  have c1: "sres_avg_error ?c = 0" "sres_avg_iterations ?c = 0"
    by (simp_all add: cloth_clear_result_def)
  have e: "?s1 = ?c\<lparr>sres_min_error := res_error r,
          sres_max_error := res_error r,
          sres_avg_error := sres_avg_error ?c + res_error r / of_int steps,
          sres_min_iterations := res_iterations r,
          sres_max_iterations := res_iterations r,
          sres_avg_iterations :=
            sres_avg_iterations ?c + of_int (res_iterations r) / of_int steps,
          sres_status := sres_status ?c OR res_status r\<rparr>"
    using cloth_record_result_first [OF c0 s] .
  have st: "sres_status ?s1 \<noteq> 0"
    using assms(1) s by (simp add: e c0)
  have rest: "\<forall>r \<in> set rs. res_status r = BPH_SOLVER_SUCCESS H"
    using assms(3) rs by simp
  note tail = cloth_record_results_started [OF st rest, of steps]
  have n: "real_of_int steps = 1 + real (length rs)" using assms(4) rs by simp
  have f1: "sres_min_error ?s1 = res_error r" "sres_max_error ?s1 = res_error r"
    "sres_avg_error ?s1 = res_error r / of_int steps"
    "sres_min_iterations ?s1 = res_iterations r" "sres_max_iterations ?s1 = res_iterations r"
    "sres_avg_iterations ?s1 = of_int (res_iterations r) / of_int steps"
    by (simp_all add: e c1)
  have unroll: "cloth_record_results H ?c results steps = cloth_record_results H ?s1 rs steps"
    by (simp add: rs)
  have status: "sres_status (cloth_record_results H ?c results steps)
           = foldl (OR) 0 (map res_status results)"
    by (simp add: cloth_record_results_status c0)
  show ?thesis
    using tail status
    by (simp add: unroll f1 n rs add_divide_distrib)
qed

lemma example_results_recorded:
  "cloth_record_results example_consts (cloth_clear_result example_sres) example_results 3
     = \<lparr>sres_status = 1, sres_max_error = 3 / 100, sres_min_error = 1 / 100,
        sres_avg_error = 2 / 100, sres_max_iterations = 10, sres_min_iterations = 4,
        sres_avg_iterations = 7\<rparr>"
  by (simp add: example_results_def example_sres_def example_consts_def cloth_clear_result_def
        cloth_record_result_def Let_def min_ff_def max_ff_def min_ii_def max_ii_def)

theorem frame_result_aggregation_witness:
  "BPH_SOLVER_SUCCESS example_consts \<noteq> 0 \<and> example_results \<noteq> []
   \<and> set (map res_status example_results) = {BPH_SOLVER_SUCCESS example_consts}
   \<and> (3::int) = int (length example_results)
   \<and> sres_avg_error (cloth_record_results example_consts (cloth_clear_result example_sres)
        example_results 3) = 2 / 100
   \<and> sum_list (map res_error example_results) / real (length example_results) = 2 / 100
   \<and> sres_min_error (cloth_record_results example_consts (cloth_clear_result example_sres)
        example_results 3) = 1 / 100
   \<and> Min (set (map res_error example_results)) = 1 / 100
   \<and> sres_max_iterations (cloth_record_results example_consts (cloth_clear_result example_sres)
        example_results 3) = 10
   \<and> Max (set (map res_iterations example_results)) = 10"
proof -
  have h1: "BPH_SOLVER_SUCCESS example_consts \<noteq> 0" by (simp add: example_consts_def)
  have h2: "example_results \<noteq> []" by (simp add: example_results_def)
  have h3: "\<forall>r \<in> set example_results. res_status r = BPH_SOLVER_SUCCESS example_consts"
    by (simp add: example_results_def example_consts_def)
  have h4: "(3::int) = int (length example_results)" by (simp add: example_results_def)
  note t = frame_result_aggregation [OF h1 h2 h3 h4, of example_sres]
  let ?f = "cloth_record_results example_consts (cloth_clear_result example_sres) example_results 3"
  from t have a0: "sres_avg_error ?f
      = sum_list (map res_error example_results) / real (length example_results)"
    and b0: "sres_min_error ?f = Min (set (map res_error example_results))"
    and c0: "sres_max_iterations ?f = Max (set (map res_iterations example_results))"
    by blast+
  have a: "sum_list (map res_error example_results) / real (length example_results) = 2 / 100"
    unfolding a0 [symmetric] by (simp add: example_results_recorded)
  have b: "Min (set (map res_error example_results)) = 1 / 100"
    unfolding b0 [symmetric] by (simp add: example_results_recorded)
  have c: "Max (set (map res_iterations example_results)) = 10"
    unfolding c0 [symmetric] by (simp add: example_results_recorded)
  have d: "sres_avg_error ?f = 2 / 100" "sres_min_error ?f = 1 / 100"
    "sres_max_iterations ?f = 10"
    by (simp_all add: example_results_recorded)
  have h3': "set (map res_status example_results) = {BPH_SOLVER_SUCCESS example_consts}"
    by (simp add: example_results_def example_consts_def)
  from h1 h2 h3' h4 d(1) a d(2) b d(3) c
  show ?thesis by - (intro conjI; assumption)
qed

subsection \<open>Single-precision rounding\<close>

lemma rne_error: "\<bar>real_of_int (rne y) - y\<bar> \<le> 1 / 2"
  unfolding rne_def Let_def by (auto; linarith)

lemma rne_of_int: "rne (of_int z) = z"
  by (simp add: rne_def)

lemma rne_nonneg: "0 \<le> y \<Longrightarrow> 0 \<le> rne y"
  unfolding rne_def Let_def by (auto simp: add_nonneg_nonneg)

lemma round23_error: "\<bar>round23 x - x\<bar> \<le> 1 / 2 ^ 24"
  using rne_error [of "x * 2 ^ 23"]
  by (simp add: round23_def abs_le_iff field_simps)

lemma round23_nonneg: "0 \<le> x \<Longrightarrow> 0 \<le> round23 x"
  by (simp add: round23_def rne_nonneg)

lemma round23_exact: "x * 2 ^ 23 = of_int z \<Longrightarrow> round23 x = x"
  by (simp add: round23_def rne_of_int field_simps)

lemma fl32_up_error: "\<bar>fl32_up k x - x\<bar> \<le> 1 / 2 ^ 24"
proof (induction k arbitrary: x)
  case 0
  show ?case using round23_error [of x] by simp
next
  case (Suc k)
  show ?case
  proof (cases "1 \<le> x")
    case True
    then show ?thesis using round23_error [of x] by simp
  next
    case False
    then show ?thesis using Suc.IH [of "2 * x"] by (simp add: abs_if split: if_splits)
  qed
qed

lemma fl32_up_nonneg: "0 \<le> x \<Longrightarrow> 0 \<le> fl32_up k x"
  by (induction k arbitrary: x) (simp_all add: round23_nonneg)

lemma fl32_up_exact: "x * 2 ^ 23 = of_int z \<Longrightarrow> fl32_up k x = x"
proof (induction k arbitrary: x z)
  case 0
  then show ?case by (simp add: round23_exact)
next
  case (Suc k)
  have "2 * x * 2 ^ 23 = of_int (2 * z)" using Suc.prems by simp
  then have "fl32_up k (2 * x) = 2 * x" by (rule Suc.IH)
  then show ?case using Suc.prems by (simp add: round23_exact)
qed

lemma to_float_error_lt2:
  assumes "0 \<le> x" and "x < 2"
  shows "\<bar>to_float x - x\<bar> \<le> 1 / 2 ^ 24" and "0 \<le> to_float x"
  using assms fl32_up_error [of 126 x]
  by (simp_all add: to_float_def fl32_pos.simps [of x] fl32_up_nonneg)

lemma to_float_error_lt4:
  assumes "0 \<le> x" and "x < 4"
  shows "\<bar>to_float x - x\<bar> \<le> 1 / 2 ^ 23" and "0 \<le> to_float x"
proof -
  show "0 \<le> to_float x"
    using assms
    by (simp add: to_float_def fl32_pos.simps [of x] fl32_pos.simps [of "x / 2"] fl32_up_nonneg)
  show "\<bar>to_float x - x\<bar> \<le> 1 / 2 ^ 23"
  proof (cases "x < 2")
    case True
    then show ?thesis using to_float_error_lt2(1) [OF assms(1), of ] by (simp add: abs_le_iff)
  next
    case False
    then show ?thesis
      using assms fl32_up_error [of 126 "x / 2"]
      by (simp add: to_float_def fl32_pos.simps [of x] fl32_pos.simps [of "x / 2"] abs_if
            split: if_splits)
  qed
qed

lemma fl32_pos_dyadic:
  "x = real N / 2 ^ e \<Longrightarrow> N < 2 ^ 24 \<Longrightarrow> e \<le> 23 \<Longrightarrow> fl32_pos x = x"
proof (induction x arbitrary: e rule: fl32_pos.induct)
  case (1 x)
  show ?case
  proof (cases "x < 2")
    case True
    have "(2::real) ^ 23 = 2 ^ e * 2 ^ (23 - e)"
      using "1.prems"(3) by (simp flip: power_add)
    then have "x * 2 ^ 23 = real N * 2 ^ (23 - e)"
      unfolding "1.prems"(1) by (simp only: times_divide_eq_left) (simp add: field_simps)
    also have "\<dots> = of_int (int N * 2 ^ (23 - e))" by simp
    finally have "fl32_up 126 x = x" by (rule fl32_up_exact)
    then show ?thesis using True by (simp add: fl32_pos.simps [of x])
  next
    case False
    then have "2 * 2 ^ e \<le> real N" using "1.prems"(1) by (simp add: field_simps)
    also have "real N < 2 ^ 24" using "1.prems"(2) by (metis of_nat_less_iff of_nat_numeral of_nat_power)
    finally have lt: "(2::real) ^ Suc e < 2 ^ 24" by simp
    have "Suc e < 24" using power_less_imp_less_exp [OF _ lt] by simp
    then have e: "Suc e \<le> 23" by simp
    have h: "x / 2 = real N / 2 ^ Suc e" using "1.prems"(1) by simp
    have "fl32_pos (x / 2) = x / 2"
      using "1.IH" [OF False h "1.prems"(2) e] .
    then show ?thesis using False by (simp add: fl32_pos.simps [of x])
  qed
qed

lemma to_float_of_nat: "N < 2 ^ 24 \<Longrightarrow> to_float (real N) = real N"
  using fl32_pos_dyadic [of "real N" N 0] by (simp add: to_float_def)

lemma to_float_lt2_eq: "0 \<le> x \<Longrightarrow> x < 2 \<Longrightarrow> to_float x = fl32_up 126 x"
  by (simp add: to_float_def fl32_pos.simps [of x])


subsection \<open>The substep fraction\<close>

lemma strands_dstep_error:
  assumes "1 \<le> n" and "n \<le> 2048"
  shows "\<bar>strands_dstep n - 1 / real_of_int n\<bar> \<le> 1 / 2 ^ 24" and "0 \<le> strands_dstep n"
proof -
  have nn: "nat n < 2 ^ 24" using assms by simp
  have conv: "to_float (real_of_int n) = real_of_int n"
    using to_float_of_nat [OF nn] assms(1) by simp
  have r: "0 \<le> 1 / real_of_int n" "1 / real_of_int n < 2"
    using assms(1) by (simp_all add: field_simps)
  show "\<bar>strands_dstep n - 1 / real_of_int n\<bar> \<le> 1 / 2 ^ 24" and "0 \<le> strands_dstep n"
    unfolding strands_dstep_def conv using to_float_error_lt2 [OF r] by simp_all
qed

lemma strands_dstep_12: "strands_dstep 12 = 11184811 / 134217728"
proof -
  have "to_float (real_of_int 12) = 12" using to_float_of_nat [of 12] by simp
  then show ?thesis
    by (simp add: strands_dstep_def to_float_lt2_eq eval_nat_numeral round23_def rne_def Let_def)
qed

lemma below_one:
  fixes S X E u t :: real
  assumes "\<bar>S - X\<bar> \<le> E" and "E < u" and "u \<le> t" and "X \<le> 1 - t"
  shows "S < 1"
  using assms by linarith

lemma not_below_one:
  fixes S X E u t :: real
  assumes "\<bar>S - X\<bar> \<le> E" and "E < u" and "u \<le> t" and "1 + t \<le> X"
  shows "\<not> S < 1"
  using assms by linarith

subsection \<open>Pinned vertices in the substep loop\<close>












































subsection \<open>The substep loop of the strand solver\<close>

lemma strands_solve_loop_run:
  assumes "\<forall>k < c. strands_step_at d k < 1" and "\<not> strands_step_at d c < 1" and "j \<le> c"
  shows "strands_solve_loop substep d (strands_step_at d j) st
           = Some (foldl (\<lambda>s k. substep (strands_step_at d k) s) st [j..<c])"
  using assms(3)
proof (induction "c - j" arbitrary: j st)
  case 0
  then have "j = c" by simp
  then show ?case
    using assms(2) by (subst strands_solve_loop.simps) simp
next
  case (Suc n)
  then have lt: "j < c" by simp
  then have c: "strands_step_at d j < 1" using assms(1) by simp
  have n: "n = c - Suc j" using Suc.hyps(2) by simp
  have "strands_solve_loop substep d (strands_step_at d j) st
      = strands_solve_loop substep d (strands_step_at d (Suc j)) (substep (strands_step_at d j) st)"
    by (subst strands_solve_loop.simps) (simp only: c if_True strands_step_at.simps)
  also have "\<dots> = Some (foldl (\<lambda>s k. substep (strands_step_at d k) s)
                        (substep (strands_step_at d j) st) [Suc j..<c])"
    using Suc.hyps(1) [OF n] lt by simp
  also have "\<dots> = Some (foldl (\<lambda>s k. substep (strands_step_at d k) s) st [j..<c])"
    using lt by (simp add: upt_conv_Cons)
  finally show ?case .
qed

lemma strands_pass_error:
  assumes d0: "0 \<le> d" and d1: "d \<le> 1 + 1 / 2 ^ 24" and s0: "0 \<le> s" and s1: "s < 1"
  shows "\<bar>to_float (to_float (s + d) + d) - (s + 2 * d)\<bar> \<le> 4 / 2 ^ 24"
    and "0 \<le> to_float (to_float (s + d) + d)"
proof -
  have a: "0 \<le> s + d" "s + d < 4" using assms by simp_all
  note e1 = to_float_error_lt4 [OF a]
  have b: "0 \<le> to_float (s + d) + d" "to_float (s + d) + d < 4"
    using e1 assms by (simp_all add: abs_if split: if_splits)
  note e2 = to_float_error_lt4 [OF b]
  show "0 \<le> to_float (to_float (s + d) + d)" by (rule e2(2))
  show "\<bar>to_float (to_float (s + d) + d) - (s + 2 * d)\<bar> \<le> 4 / 2 ^ 24"
    using e1(1) e2(1) by (simp add: abs_if split: if_splits)
qed

lemma abs_triangle3:
  fixes A s d p q :: real
  shows "\<bar>A - (p + 2 * q)\<bar> \<le> \<bar>A - (s + 2 * d)\<bar> + \<bar>s - p\<bar> + 2 * \<bar>d - q\<bar>"
proof -
  have "A - (p + 2 * q) = (A - (s + 2 * d)) + (s - p) + 2 * (d - q)" by simp
  also have "\<bar>\<dots>\<bar> \<le> \<bar>A - (s + 2 * d)\<bar> + \<bar>s - p\<bar> + \<bar>2 * (d - q)\<bar>"
    by (intro order_trans [OF abs_triangle_ineq] add_mono order_refl)
  finally have "\<bar>A - (p + 2 * q)\<bar> \<le> \<bar>A - (s + 2 * d)\<bar> + \<bar>s - p\<bar> + \<bar>2 * (d - q)\<bar>" .
  moreover have "\<bar>2 * (d - q)\<bar> = 2 * \<bar>d - q\<bar>"
    using abs_mult [of 2 "d - q"] by (simp del: abs_mult)
  ultimately show ?thesis by (simp only:)
qed

lemma strands_step_error:
  assumes n: "1 \<le> n" "n \<le> 2048"
    and below: "\<forall>j < k. strands_step_at (strands_dstep n) j < 1"
  shows "0 \<le> strands_step_at (strands_dstep n) k
       \<and> \<bar>strands_step_at (strands_dstep n) k - 2 * real k / real_of_int n\<bar>
           \<le> 6 * real k / 2 ^ 24"
  using below
proof (induction k)
  case 0
  show ?case by simp
next
  case (Suc k)
  let ?d = "strands_dstep n"
  let ?s = "strands_step_at ?d k"
  have ih: "0 \<le> ?s" "\<bar>?s - 2 * real k / real_of_int n\<bar> \<le> 6 * real k / 2 ^ 24"
    using Suc.IH Suc.prems by simp_all
  have s1: "?s < 1" using Suc.prems by simp
  note de = strands_dstep_error [OF n]
  have dn: "1 / real_of_int n \<le> 1" using n(1) by simp
  have d1: "?d \<le> 1 + 1 / 2 ^ 24" using de(1) dn by (simp add: abs_if split: if_splits)
  note pe = strands_pass_error [OF de(2) d1 ih(1) s1]
  have sp: "2 * real (Suc k) / real_of_int n = 2 * real k / real_of_int n + 2 * (1 / real_of_int n)"
    by (simp add: add_divide_distrib algebra_simps)
  have "\<bar>to_float (to_float (?s + ?d) + ?d) - 2 * real (Suc k) / real_of_int n\<bar>
      \<le> \<bar>to_float (to_float (?s + ?d) + ?d) - (?s + 2 * ?d)\<bar>
        + \<bar>?s - 2 * real k / real_of_int n\<bar> + 2 * \<bar>?d - 1 / real_of_int n\<bar>"
    unfolding sp by (rule abs_triangle3)
  also have "\<dots> \<le> 4 / 2 ^ 24 + 6 * real k / 2 ^ 24 + 2 * (1 / 2 ^ 24)"
    using pe(1) ih(2) de(1) by (intro add_mono mult_left_mono) simp_all
  also have "\<dots> = 6 * real (Suc k) / 2 ^ 24" by (simp add: field_simps)
  finally show ?case using pe(2) by simp
qed

lemma ceiling_half: "nat \<lceil>real n / 2\<rceil> = (n + 1) div 2"
proof -
  define q where "q = (n + 1) div 2"
  have "n \<le> 2 * q" and "2 * q \<le> n + 1" unfolding q_def by arith+
  then have "real n \<le> real (2 * q)" and "real (2 * q) \<le> real (n + 1)"
    by (simp_all only: of_nat_le_iff)
  then have "real_of_int (int q) - 1 < real n / 2" and "real n / 2 \<le> real_of_int (int q)"
    by simp_all
  then have "\<lceil>real n / 2\<rceil> = int q" by (intro ceiling_unique)
  then show ?thesis by (simp add: q_def)
qed

lemma strands_steps_below:
  assumes n: "1 \<le> n" "n \<le> 2048" and k: "k \<le> (nat n + 1) div 2"
  shows "\<forall>j < k. strands_step_at (strands_dstep n) j < 1"
  using k
proof (induction k)
  case 0
  show ?case by simp
next
  case (Suc k)
  then have ih: "\<forall>j < k. strands_step_at (strands_dstep n) j < 1" by simp
  note e = strands_step_error [OF n ih]
  have "2 * k + 1 \<le> nat n" using Suc.prems by arith
  then have "real (2 * k + 1) \<le> real (nat n)" by (simp only: of_nat_le_iff)
  then have kn: "2 * real k + 1 \<le> real_of_int n" using n(1) by simp
  have rn: "1 \<le> real_of_int n" "real_of_int n \<le> 2048" using n by simp_all
  have a: "6 * real k / 2 ^ 24 < 1 / 2048" using kn rn by simp
  have b: "1 / 2048 \<le> 1 / real_of_int n" using rn by (simp add: field_simps)
  have "2 * real k / real_of_int n \<le> (real_of_int n - 1) / real_of_int n"
    using kn rn by (intro divide_right_mono) simp_all
  also have "\<dots> = 1 - 1 / real_of_int n" using rn by (simp add: field_simps)
  finally have c: "2 * real k / real_of_int n \<le> 1 - 1 / real_of_int n" .
  have "strands_step_at (strands_dstep n) k < 1"
    using e [THEN conjunct2] a b c by (rule below_one)
  then show ?case using ih by (simp add: less_Suc_eq)
qed

lemma strands_step_above:
  assumes n: "1 \<le> n" "n \<le> 2048"
    and below: "\<forall>j < Suc ((nat n + 1) div 2). strands_step_at (strands_dstep n) j < 1"
  shows "\<not> strands_step_at (strands_dstep n) (Suc ((nat n + 1) div 2)) < 1"
proof -
  let ?m = "(nat n + 1) div 2"
  note e = strands_step_error [OF n below]
  have "N + 2 \<le> 2 * Suc ((N + 1) div 2)" for N :: nat by presburger
  then have "nat n + 2 \<le> 2 * Suc ?m" .
  then have "real (nat n + 2) \<le> real (2 * Suc ?m)" by (simp only: of_nat_le_iff)
  then have kn: "real_of_int n + 2 \<le> 2 * real (Suc ?m)" using n(1) by simp
  have "2 * Suc ((N + 1) div 2) \<le> N + 3" for N :: nat by presburger
  then have "2 * Suc ?m \<le> nat n + 3" .
  then have "real (2 * Suc ?m) \<le> real (nat n + 3)" by (simp only: of_nat_le_iff)
  then have km: "2 * real (Suc ?m) \<le> real_of_int n + 3" using n(1) by simp
  have rn: "1 \<le> real_of_int n" "real_of_int n \<le> 2048" using n by simp_all
  have a: "6 * real (Suc ?m) / 2 ^ 24 < 2 / 2048" using km rn by simp
  have b: "2 / 2048 \<le> 2 / real_of_int n" using rn by (simp add: field_simps)
  have "(real_of_int n + 2) / real_of_int n \<le> 2 * real (Suc ?m) / real_of_int n"
    using kn rn by (intro divide_right_mono) simp_all
  moreover have "(real_of_int n + 2) / real_of_int n = 1 + 2 / real_of_int n"
    using rn by (simp add: field_simps)
  ultimately have c: "1 + 2 / real_of_int n \<le> 2 * real (Suc ?m) / real_of_int n" by simp
  show ?thesis
    using e [THEN conjunct2] a b c by (rule not_below_one)
qed

lemma strands_pass_count:
  assumes n: "1 \<le> n" "n \<le> 2048"
  obtains c where "c = (nat n + 1) div 2 \<or> c = (nat n + 1) div 2 + 1"
    and "\<forall>k < c. strands_step_at (strands_dstep n) k < 1"
    and "\<not> strands_step_at (strands_dstep n) c < 1"
proof (cases "strands_step_at (strands_dstep n) ((nat n + 1) div 2) < 1")
  case False
  with strands_steps_below [OF n order_refl] show ?thesis using that by blast
next
  case True
  with strands_steps_below [OF n order_refl]
  have b: "\<forall>j < Suc ((nat n + 1) div 2). strands_step_at (strands_dstep n) j < 1"
    by (simp add: less_Suc_eq)
  from strands_step_above [OF n b] b show ?thesis using that [of "(nat n + 1) div 2 + 1"] by simp
qed

lemma strands_steps_12:
  "strands_step_at (11184811 / 134217728) 0 = 0"
  "strands_step_at (11184811 / 134217728) 1 = 11184811 / 67108864"
  "strands_step_at (11184811 / 134217728) 2 = 11184811 / 33554432"
  "strands_step_at (11184811 / 134217728) 3 = 1 / 2"
  "strands_step_at (11184811 / 134217728) 4 = 5592405 / 8388608"
  "strands_step_at (11184811 / 134217728) 5 = 3495253 / 4194304"
  "strands_step_at (11184811 / 134217728) 6 = 8388607 / 8388608"
  "strands_step_at (11184811 / 134217728) 7 = 9786709 / 8388608"
proof -
  have s0: "strands_step_at (11184811 / 134217728) 0 = 0" by simp
  have s1: "strands_step_at (11184811 / 134217728) (Suc 0) = 11184811 / 67108864"
    unfolding strands_step_at.simps s0
    by (simp add: to_float_lt2_eq eval_nat_numeral round23_def rne_def Let_def)
  have s1: "strands_step_at (11184811 / 134217728) 1 = 11184811 / 67108864"
    using s1 by simp
  have s2: "strands_step_at (11184811 / 134217728) (Suc 1) = 11184811 / 33554432"
    unfolding strands_step_at.simps s1
    by (simp add: to_float_lt2_eq eval_nat_numeral round23_def rne_def Let_def)
  have s2: "strands_step_at (11184811 / 134217728) 2 = 11184811 / 33554432"
    using s2 by (simp add: eval_nat_numeral)
  have s3: "strands_step_at (11184811 / 134217728) (Suc 2) = 1 / 2"
    unfolding strands_step_at.simps s2
    by (simp add: to_float_lt2_eq eval_nat_numeral round23_def rne_def Let_def)
  have s3: "strands_step_at (11184811 / 134217728) 3 = 1 / 2"
    using s3 by (simp add: eval_nat_numeral)
  have s4: "strands_step_at (11184811 / 134217728) (Suc 3) = 5592405 / 8388608"
    unfolding strands_step_at.simps s3
    by (simp add: to_float_lt2_eq eval_nat_numeral round23_def rne_def Let_def)
  have s4: "strands_step_at (11184811 / 134217728) 4 = 5592405 / 8388608"
    using s4 by (simp add: eval_nat_numeral)
  have s5: "strands_step_at (11184811 / 134217728) (Suc 4) = 3495253 / 4194304"
    unfolding strands_step_at.simps s4
    by (simp add: to_float_lt2_eq eval_nat_numeral round23_def rne_def Let_def)
  have s5: "strands_step_at (11184811 / 134217728) 5 = 3495253 / 4194304"
    using s5 by (simp add: eval_nat_numeral)
  have s6: "strands_step_at (11184811 / 134217728) (Suc 5) = 8388607 / 8388608"
    unfolding strands_step_at.simps s5
    by (simp add: to_float_lt2_eq eval_nat_numeral round23_def rne_def Let_def)
  have s6: "strands_step_at (11184811 / 134217728) 6 = 8388607 / 8388608"
    using s6 by (simp add: eval_nat_numeral)
  have s7: "strands_step_at (11184811 / 134217728) (Suc 6) = 9786709 / 8388608"
    unfolding strands_step_at.simps s6
    by (simp add: to_float_lt2_eq eval_nat_numeral round23_def rne_def Let_def)
  have s7: "strands_step_at (11184811 / 134217728) 7 = 9786709 / 8388608"
    using s7 by (simp add: eval_nat_numeral)
  show
    "strands_step_at (11184811 / 134217728) 0 = 0"
    "strands_step_at (11184811 / 134217728) 1 = 11184811 / 67108864"
    "strands_step_at (11184811 / 134217728) 2 = 11184811 / 33554432"
    "strands_step_at (11184811 / 134217728) 3 = 1 / 2"
    "strands_step_at (11184811 / 134217728) 4 = 5592405 / 8388608"
    "strands_step_at (11184811 / 134217728) 5 = 3495253 / 4194304"
    "strands_step_at (11184811 / 134217728) 6 = 8388607 / 8388608"
    "strands_step_at (11184811 / 134217728) 7 = 9786709 / 8388608"
    by (fact s0 s1 s2 s3 s4 s5 s6 s7)+
qed

lemma count_pass_fold: "foldl (\<lambda>s k. count_pass (f k) s) 0 [0..<j] = j"
  by (induction j) (simp_all add: count_pass_def)

lemma strands_count_12: "strands_solve_loop count_pass (strands_dstep 12) 0 0 = Some 7"
proof -
  let ?d = "11184811 / 134217728 :: real"
  have below: "\<forall>k < 7. strands_step_at ?d k < 1"
  proof (intro allI impI)
    fix k :: nat assume "k < 7"
    then consider "k = 0" | "k = 1" | "k = 2" | "k = 3" | "k = 4" | "k = 5" | "k = 6" by linarith
    then show "strands_step_at ?d k < 1"
      using strands_steps_12 by cases (simp_all del: strands_step_at.simps)
  qed
  have above: "\<not> strands_step_at ?d 7 < 1" by (simp add: strands_steps_12)
  have cnt: "foldl (\<lambda>s k. count_pass (strands_step_at ?d k) s) 0 [0..<j] = j" for j
    by (induction j) (simp_all add: count_pass_def)
  show ?thesis
    using strands_solve_loop_run [OF below above, of 0 count_pass 0]
    by (simp add: strands_dstep_12 cnt)
qed

text \<open>
  Claim C10 as it is stated does not hold for every number of substeps: with 12
  substeps the single-precision value of \<^verbatim>\<open>step\<close> after six passes is
  8388607 / 8388608, which is below 1, and the loop body runs 7 times, not 6.
\<close>

theorem strands_loop_twelve_substeps:
  "strands_solve_loop count_pass (strands_dstep 12) 0 0 = Some 7
   \<and> nat \<lceil>real_of_int 12 / 2\<rceil> = 6
   \<and> strands_solve_loop count_pass (strands_dstep 12) 0 0 \<noteq> Some (nat \<lceil>real_of_int 12 / 2\<rceil>)
   \<and> BPH_strands_solve id count_pass id 1 12 0 = Some (True, 7)"
proof -
  have h: "nat \<lceil>real_of_int 12 / 2\<rceil> = 6" by simp
  have b: "BPH_strands_solve id count_pass id 1 12 0 = Some (True, 7)"
    by (simp only: BPH_strands_solve_def Let_def strands_dstep_def [symmetric] id_apply
          strands_count_12) simp
  show ?thesis unfolding h using strands_count_12 b by simp
qed

text \<open>
  Claim C10, amended. Every pass through the loop of \<open>BPH_strands_solve\<close> adds the
  substep fraction to \<^verbatim>\<open>step\<close> twice, once in the body and once in the loop header,
  each time rounded to single precision. For a time scale other than 0 and a number
  \<open>n\<close> of substeps between 1 and 2048 the loop ends, and its body runs either
  \<open>\<lceil>n / 2\<rceil>\<close> times or once more; from 4 substeps on this is fewer than \<open>n\<close> times. The
  function then returns true with the state that these passes and the statements after
  the loop give.
\<close>

theorem strands_loop_passes:
  assumes "timescale \<noteq> 0" and "1 \<le> substeps" and "substeps \<le> 2048"
  shows "(\<exists>c. (c = nat \<lceil>real_of_int substeps / 2\<rceil> \<or> c = nat \<lceil>real_of_int substeps / 2\<rceil> + 1)
            \<and> BPH_strands_solve init substep finish timescale substeps st
                = Some (True,
                    finish (foldl (\<lambda>s k. substep (strands_step_at (strands_dstep substeps) k) s)
                              (init st) [0..<c]))
            \<and> strands_solve_loop count_pass (strands_dstep substeps) 0 0 = Some c
            \<and> (4 \<le> substeps \<longrightarrow> c < nat substeps))
         \<and> (\<forall>step s. step < 1 \<longrightarrow>
               strands_solve_loop substep (strands_dstep substeps) step s
                 = strands_solve_loop substep (strands_dstep substeps)
                     (to_float (to_float (step + strands_dstep substeps) + strands_dstep substeps))
                     (substep step s))"
proof (intro conjI allI impI)
  let ?d = "strands_dstep substeps"
  have half: "nat \<lceil>real_of_int substeps / 2\<rceil> = (nat substeps + 1) div 2"
    using ceiling_half [of "nat substeps"] assms(2) by simp
  obtain c where c: "c = (nat substeps + 1) div 2 \<or> c = (nat substeps + 1) div 2 + 1"
    and below: "\<forall>k < c. strands_step_at ?d k < 1"
    and above: "\<not> strands_step_at ?d c < 1"
    using strands_pass_count [OF assms(2,3)] by blast
  have run: "strands_solve_loop sub ?d 0 s0
      = Some (foldl (\<lambda>s k. sub (strands_step_at ?d k) s) s0 [0..<c])" for sub :: "real \<Rightarrow> 'b \<Rightarrow> 'b" and s0
    using strands_solve_loop_run [OF below above, of 0 sub s0] by simp
  have cnt: "foldl (\<lambda>s k. count_pass (strands_step_at ?d k) s) 0 [0..<j] = j" for j
    by (induction j) (simp_all add: count_pass_def)
  have a: "BPH_strands_solve init substep finish timescale substeps st
                = Some (True,
                    finish (foldl (\<lambda>s k. substep (strands_step_at ?d k) s) (init st) [0..<c]))"
    using assms(1,2) by (simp add: BPH_strands_solve_def Let_def strands_dstep_def [symmetric] run)
  have b: "strands_solve_loop count_pass ?d 0 0 = Some c"
    by (simp add: run cnt)
  have d: "4 \<le> substeps \<longrightarrow> c < nat substeps"
    using c by auto
  show "\<exists>c. (c = nat \<lceil>real_of_int substeps / 2\<rceil> \<or> c = nat \<lceil>real_of_int substeps / 2\<rceil> + 1)
            \<and> BPH_strands_solve init substep finish timescale substeps st
                = Some (True,
                    finish (foldl (\<lambda>s k. substep (strands_step_at ?d k) s) (init st) [0..<c]))
            \<and> strands_solve_loop count_pass ?d 0 0 = Some c
            \<and> (4 \<le> substeps \<longrightarrow> c < nat substeps)"
    unfolding half using c a b d by blast
next
  fix step :: real and s
  assume "step < 1"
  then show "strands_solve_loop substep (strands_dstep substeps) step s
                 = strands_solve_loop substep (strands_dstep substeps)
                     (to_float (to_float (step + strands_dstep substeps) + strands_dstep substeps))
                     (substep step s)"
    by (subst strands_solve_loop.simps) simp
qed

theorem strands_loop_passes_witness:
  "(1::real) \<noteq> 0 \<and> (1::int) \<le> 12 \<and> (12::int) \<le> 2048 \<and> (4::int) \<le> 12
   \<and> strands_solve_loop count_pass (strands_dstep 12) 0 0
       = Some (nat \<lceil>real_of_int 12 / 2\<rceil> + 1)
   \<and> nat \<lceil>real_of_int 12 / 2\<rceil> + 1 < nat 12
   \<and> BPH_strands_solve id count_pass id 1 12 0 = Some (True, 7)
   \<and> (0::real) < 1
   \<and> strands_solve_loop count_pass (strands_dstep 12) 0 0
       = strands_solve_loop count_pass (strands_dstep 12)
           (to_float (to_float (0 + strands_dstep 12) + strands_dstep 12)) (count_pass 0 0)"
proof -
  have h1: "(1::real) \<noteq> 0" and h2: "(1::int) \<le> 12" and h3: "(12::int) \<le> 2048"
    and h4: "(4::int) \<le> 12" and h5: "(0::real) < 1" by simp_all
  note t = strands_loop_passes [OF h1 h2 h3, of id count_pass id 0]
  from t obtain c where c: "strands_solve_loop count_pass (strands_dstep 12) 0 0 = Some c"
    and r: "BPH_strands_solve id count_pass id 1 12 0
      = Some (True, id (foldl (\<lambda>s k. count_pass (strands_step_at (strands_dstep 12) k) s)
                          (id 0) [0..<c]))"
    and l: "(4::int) \<le> 12 \<longrightarrow> c < nat 12"
    by blast
  have c7: "c = 7" using c strands_count_12 by simp
  have a: "strands_solve_loop count_pass (strands_dstep 12) 0 0
       = Some (nat \<lceil>real_of_int 12 / 2\<rceil> + 1)"
    using c c7 by simp
  have b: "nat \<lceil>real_of_int 12 / 2\<rceil> + 1 < nat 12" using l h4 c7 by simp
  have e: "BPH_strands_solve id count_pass id 1 12 0 = Some (True, 7)"
    using r unfolding c7 id_apply count_pass_fold by simp
  have f: "strands_solve_loop count_pass (strands_dstep 12) 0 0
       = strands_solve_loop count_pass (strands_dstep 12)
           (to_float (to_float (0 + strands_dstep 12) + strands_dstep 12)) (count_pass 0 0)"
    using t [THEN conjunct2, rule_format, OF h5, of 0] .
  from h1 h2 h3 h4 a b e h5 f show ?thesis by - (intro conjI; assumption)
qed

end
